theory Spec2Isabelle
  imports Complex_Main "HOL-Library.Multiset"
begin

section \<open>Numeric conventions\<close>

text \<open>
  Python floats and NumPy float arrays are read as real numbers: sums, means, square
  roots and comparisons are exact, and there is no NaN. The one exception is
  \<open>np.linspace\<close>, where the rounding of two double operations decides which frame is
  read; it is modelled with \<open>fl64\<close> below. An integer frame index is a \<open>nat\<close>, the
  frame count that the container reports is an \<open>int\<close>.
\<close>

definition round_half_even :: "real \<Rightarrow> int" where
  "round_half_even x =
     (let f = \<lfloor>x\<rfloor>; d = x - of_int f
      in if d < 1 / 2 then f
         else if 1 / 2 < d then f + 1
         else if even f then f else f + 1)"

text \<open>\<open>round(x, nd)\<close> of Python on a float: nearest multiple of \<open>10^-nd\<close>, halves to even.\<close>

definition py_round :: "real \<Rightarrow> nat \<Rightarrow> real" where
  "py_round x nd = of_int (round_half_even (x * 10 ^ nd)) / 10 ^ nd"

text \<open>\<open>np.mean\<close> of a flat array.\<close>

definition np_mean :: "real list \<Rightarrow> real" where
  "np_mean xs = sum_list xs / real (length xs)"

text \<open>
  \<open>max(iterable, key=...)\<close> of Python: the first element whose key is maximal. The
  iterable is not empty wherever the source calls it.
\<close>

fun max_by :: "('a \<Rightarrow> real) \<Rightarrow> 'a \<Rightarrow> 'a list \<Rightarrow> 'a" where
  "max_by key best [] = best"
| "max_by key best (x # xs) = max_by key (if key best < key x then x else best) xs"

definition py_max :: "('a \<Rightarrow> real) \<Rightarrow> 'a list \<Rightarrow> 'a" where
  "py_max key xs = max_by key (hd xs) (tl xs)"

section \<open>liveness.py\<close>

text \<open>
  A flow field is the \<open>(H, W, 2)\<close> array of OpenCV: rows of pixels, each pixel the pair
  \<open>(dx, dy)\<close>. The grey-scale conversion and the Farneback flow of OpenCV, and
  \<open>frame_to_embedding\<close> of \<open>embedding_engine.py\<close>, which runs the pretrained
  network on one frame, are taken as functions of their arguments: the fields of
  \<open>vision\<close>.
\<close>

type_synonym flow = "(real \<times> real) list list"

record ('f, 'g) vision =
  cvtColor_gray :: "'f \<Rightarrow> 'g"
  calcOpticalFlowFarneback :: "'g \<Rightarrow> 'g \<Rightarrow> flow"
  frame_to_embedding :: "'f \<Rightarrow> real list"

text \<open>
  \<open>compute_optical_flow\<close>: one Farneback call per adjacent pair. The second component
  counts the calls of the flow primitive, one per iteration of the loop.
\<close>

definition compute_optical_flow :: "('f, 'g) vision \<Rightarrow> 'f list \<Rightarrow> flow list \<times> nat" where
  "compute_optical_flow cv frames =
     (let gray_frames = map (cvtColor_gray cv) frames
      in fold (\<lambda>i (flows, calls).
                 (flows @ [calcOpticalFlowFarneback cv (gray_frames ! i) (gray_frames ! (i + 1))],
                  calls + 1))
              [0..<length gray_frames - 1] ([], 0))"

text \<open>\<open>cv2.cartToPolar\<close> magnitude of each pixel, then \<open>np.mean\<close> over the field.\<close>

definition mean_magnitude :: "flow \<Rightarrow> real" where
  "mean_magnitude fl = np_mean (map (\<lambda>(dx, dy). sqrt (dx ^ 2 + dy ^ 2)) (concat fl))"

text \<open>\<open>compute_motion_magnitude\<close>, the \<open>avg_magnitude\<close> entry of the returned dict.\<close>

definition avg_magnitude :: "flow list \<Rightarrow> real" where
  "avg_magnitude flows =
     (let magnitudes = map mean_magnitude flows
      in if length magnitudes = 0 then 0 else np_mean magnitudes)"

record direction_info =
  horizontal :: real
  vertical :: real
  expansion :: real
  rotation :: real

text \<open>
  The body of the loop of \<open>detect_dominant_direction\<close> for one field: the four means
  \<open>(mean dx, mean dy, mean radial, mean tangential)\<close>.
\<close>

definition flow_shape :: "flow \<Rightarrow> nat \<times> nat" where
  "flow_shape fl = (length fl, if fl = [] then 0 else length (hd fl))"

definition pixel_components :: "nat \<Rightarrow> nat \<Rightarrow> nat \<Rightarrow> nat \<Rightarrow> real \<times> real \<Rightarrow> real \<times> real" where
  "pixel_components cy cx y x d =
     (let dx = fst d; dy = snd d;
          vec_x = real_of_int (int x - int cx);
          vec_y = real_of_int (int y - int cy);
          norm = sqrt (vec_x ^ 2 + vec_y ^ 2) + 1 / 10 ^ 8;
          ux = vec_x / norm;
          uy = vec_y / norm
      in (dx * ux + dy * uy, dx * (- uy) + dy * ux))"

definition flow_means :: "flow \<Rightarrow> real \<times> real \<times> real \<times> real" where
  "flow_means fl =
     (let (h, w) = flow_shape fl;
          cy = h div 2; cx = w div 2;
          comps = concat (map (\<lambda>(y, row). map (\<lambda>(x, d). pixel_components cy cx y x d)
                                                (enumerate 0 row))
                              (enumerate 0 fl))
      in (np_mean (map fst (concat fl)),
          np_mean (map snd (concat fl)),
          np_mean (map fst comps),
          np_mean (map snd comps)))"

definition detect_dominant_direction :: "flow list \<Rightarrow> direction_info" where
  "detect_dominant_direction flows =
     (let (avg_dx, avg_dy, avg_expansion, avg_rotation) =
            fold (\<lambda>fl (a_dx, a_dy, a_exp, a_rot).
                    (let (m_dx, m_dy, m_rad, m_tan) = flow_means fl
                     in (a_dx + m_dx, a_dy + m_dy, a_exp + m_rad, a_rot + m_tan)))
                 flows (0, 0, 0, 0);
          n = (if length flows > 0 then real (length flows) else 1)
      in \<lparr>horizontal = avg_dx / n, vertical = avg_dy / n,
          expansion = avg_expansion / n, rotation = avg_rotation / n\<rparr>)"

text \<open>
  The reason strings interpolate numbers with a float format; a reason is kept as its
  template and the values it interpolates.
\<close>

datatype liveness_reason =
    Insufficient_frames_for_motion_analysis
  | Static_replay_detected real real
  | Live_motion_detected real real

record liveness_result =
  is_live :: bool
  motion_score :: real
  reason :: liveness_reason

definition check_liveness ::
  "('f, 'g) vision \<Rightarrow> 'f list \<Rightarrow> real \<Rightarrow> liveness_result \<times> nat" where
  "check_liveness cv frames min_motion =
     (if length frames < 2 then
        (\<lparr>is_live = False, motion_score = 0,
          reason = Insufficient_frames_for_motion_analysis\<rparr>, 0)
      else
        (let (flows, calls) = compute_optical_flow cv frames;
             avg_mag = avg_magnitude flows
         in if avg_mag < min_motion then
              (\<lparr>is_live = False, motion_score = py_round avg_mag 3,
                reason = Static_replay_detected avg_mag min_motion\<rparr>, calls)
            else
              (\<lparr>is_live = True, motion_score = py_round avg_mag 3,
                reason = Live_motion_detected avg_mag min_motion\<rparr>, calls)))"

datatype direction_reason =
    Insufficient_frames_for_direction_analysis
  | Accepted_with_MVP_leniency string real string
  | Challenge_direction_matched string real
  | Direction_mismatch_or_weak_motion string real string

record direction_result =
  direction_match :: bool
  detected_direction :: string
  confidence :: real
  dir_reason :: direction_reason
  flow_details :: "direction_info option"

text \<open>The \<open>scores\<close> dict, in its insertion order.\<close>

definition scores :: "direction_info \<Rightarrow> (string \<times> real) list" where
  "scores info =
     [(''rotation'', \<bar>rotation info\<bar>),
      (''zoom_in'', max (expansion info) 0),
      (''zoom_out'', max (- expansion info) 0),
      (''left'', max (- horizontal info) 0),
      (''right'', max (horizontal info) 0)]"

text \<open>\<open>scores.get\<close> on a key of the dict.\<close>

definition scores_get :: "(string \<times> real) list \<Rightarrow> string \<Rightarrow> real" where
  "scores_get sc k = the (map_of sc k)"

text \<open>\<open>detected = max(scores, key=scores.get); confidence = scores[detected]\<close>.\<close>

definition detect :: "direction_info \<Rightarrow> string \<times> real" where
  "detect info =
     (let sc = scores info;
          detected = py_max (scores_get sc) (map fst sc)
      in (detected, scores_get sc detected))"

definition round_info :: "direction_info \<Rightarrow> direction_info" where
  "round_info info =
     \<lparr>horizontal = py_round (horizontal info) 3, vertical = py_round (vertical info) 3,
      expansion = py_round (expansion info) 3, rotation = py_round (rotation info) 3\<rparr>"

definition check_challenge_direction ::
  "('f, 'g) vision \<Rightarrow> 'f list \<Rightarrow> string \<Rightarrow> real \<Rightarrow> direction_result \<times> nat" where
  "check_challenge_direction cv frames expected_direction direction_threshold =
     (if length frames < 2 then
        (\<lparr>direction_match = False, detected_direction = ''unknown'', confidence = 0,
          dir_reason = Insufficient_frames_for_direction_analysis,
          flow_details = None\<rparr>, 0)
      else
        (let (flows, calls) = compute_optical_flow cv frames;
             direction_info = detect_dominant_direction flows;
             (detected, conf) = detect direction_info;
             match = (detected = expected_direction \<and> direction_threshold < conf);
             (match', why) =
               (if \<not> match \<and> direction_threshold < conf then
                  (True, Accepted_with_MVP_leniency detected conf expected_direction)
                else if match then
                  (match, Challenge_direction_matched detected conf)
                else
                  (match, Direction_mismatch_or_weak_motion detected conf expected_direction))
         in (\<lparr>direction_match = match', detected_direction = detected,
              confidence = py_round conf 3, dir_reason = why,
              flow_details = Some (round_info direction_info)\<rparr>, calls)))"

text \<open>The direction scalars that the classifier derives from a frame sequence.\<close>

definition motion_of :: "('f, 'g) vision \<Rightarrow> 'f list \<Rightarrow> direction_info" where
  "motion_of cv frames = detect_dominant_direction (fst (compute_optical_flow cv frames))"

section \<open>challenges.py\<close>

text \<open>
  A catalog entry; \<open>text\<close> and \<open>description\<close> are display strings that no
  computation reads, and \<open>id\<close> is named \<open>cid\<close> here.
\<close>

record challenge =
  cid :: string
  expected_direction :: string

definition CHALLENGES :: "challenge list" where
  "CHALLENGES =
     [\<lparr>cid = ''rotate_clockwise'', expected_direction = ''rotation''\<rparr>,
      \<lparr>cid = ''move_closer'', expected_direction = ''zoom_in''\<rparr>,
      \<lparr>cid = ''tilt_left'', expected_direction = ''left''\<rparr>,
      \<lparr>cid = ''move_away'', expected_direction = ''zoom_out''\<rparr>,
      \<lparr>cid = ''tilt_right'', expected_direction = ''right''\<rparr>]"

definition get_challenge_by_id :: "string \<Rightarrow> challenge option" where
  "get_challenge_by_id challenge_id = find (\<lambda>c. cid c = challenge_id) CHALLENGES"

section \<open>embedding_engine.py\<close>

datatype message =
    Could_not_open_video_file
  | No_frames_could_be_extracted_from_video
  | Inhomogeneous_shape
  | Zero_features
  | Incompatible_dimension nat nat

datatype exn = ValueError message | Not_a_vector

text \<open>
  What \<open>cv2.VideoCapture\<close> gives for the uploaded bytes: whether the file opens, the
  frame count of the container (zero or negative when the container has none), and the
  frames that the decoder yields. A read after a seek to \<open>idx\<close> yields frame \<open>idx\<close>
  when there is one.
\<close>

record 'f video =
  isOpened :: bool
  frame_count :: int
  stream :: "'f list"

definition read_at :: "'f video \<Rightarrow> nat \<Rightarrow> 'f option" where
  "read_at v idx = (if idx < length (stream v) then Some (stream v ! idx) else None)"

text \<open>
  Rounding of a real to the nearest double (IEEE 754 binary64, ties to even), on the
  normal range: with \<open>2\<^sup>e \<le> \<bar>x\<bar> < 2\<^sup>e\<^sup>+\<^sup>1\<close> the doubles around \<open>x\<close> are the
  multiples of \<open>2\<^sup>e\<^sup>-\<^sup>5\<^sup>2\<close>. This is the one place where the result of the code
  depends on the rounding of a float operation, so it is modelled here.
\<close>

definition fl64 :: "real \<Rightarrow> real" where
  "fl64 x =
     (if x = 0 then 0
      else (let q = 2 powr (of_int \<lfloor>log 2 \<bar>x\<bar>\<rfloor> - 52)
            in of_int (round_half_even (x / q)) * q))"

text \<open>
  \<open>np.linspace(0, stop, num, dtype=int)\<close>. NumPy computes in doubles
  \<open>step = stop / (num - 1)\<close> and \<open>y = arange(num) * step\<close>, overwrites the last
  entry with \<open>stop\<close>, and takes the floor for the integer type. With \<open>num = 1\<close>
  the result is \<open>[0]\<close>. The requested number of frames is a \<open>nat\<close>; the endpoints
  pass 10.
\<close>

definition np_linspace_int :: "nat \<Rightarrow> nat \<Rightarrow> nat list" where
  "np_linspace_int stop num =
     (if num = 1 then [0]
      else (let step = fl64 (real stop / real (num - 1))
            in map (\<lambda>i. if i = num - 1 then stop else nat \<lfloor>fl64 (real i * step)\<rfloor>)
                   [0..<num]))"

definition extract_frames :: "'f video \<Rightarrow> nat \<Rightarrow> exn + 'f list" where
  "extract_frames v n_frames =
     (if \<not> isOpened v then Inl (ValueError Could_not_open_video_file)
      else
        (let total_frames = frame_count v
         in if total_frames \<le> 0 then
              (let frames = stream v
               in if length frames = 0 then
                    Inl (ValueError No_frames_could_be_extracted_from_video)
                  else if length frames > n_frames then
                    Inr (map (\<lambda>i. frames ! i) (np_linspace_int (length frames - 1) n_frames))
                  else Inr frames)
            else
              (let indices = np_linspace_int (nat (total_frames - 1)) n_frames;
                   frames = concat (map (\<lambda>idx. case read_at v idx of
                                                   Some frame \<Rightarrow> [frame]
                                                 | None \<Rightarrow> []) indices)
               in if length frames = 0 then
                    Inl (ValueError No_frames_could_be_extracted_from_video)
                  else Inr frames)))"

text \<open>\<open>np.mean(embeddings, axis=0)\<close> on vectors of one length, and \<open>np.linalg.norm\<close>.\<close>

definition np_mean_axis0 :: "real list list \<Rightarrow> real list" where
  "np_mean_axis0 es = map (\<lambda>j. np_mean (map (\<lambda>e. e ! j) es)) [0..<length (hd es)]"

definition linalg_norm :: "real list \<Rightarrow> real" where
  "linalg_norm v = sqrt (sum_list (map (\<lambda>x. x ^ 2) v))"

text \<open>
  \<open>get_average_embedding\<close>. NumPy does not build an array from vectors of different
  lengths (ValueError), and the mean of no vector at all is the scalar nan, not a vector.
\<close>

definition get_average_embedding :: "('f, 'g) vision \<Rightarrow> 'f list \<Rightarrow> exn + real list" where
  "get_average_embedding cv frames =
     (let embeddings = map (frame_to_embedding cv) frames
      in if embeddings = [] then Inl Not_a_vector
         else if list_ex (\<lambda>e. length e \<noteq> length (hd embeddings)) embeddings then
           Inl (ValueError Inhomogeneous_shape)
         else
           (let avg = np_mean_axis0 embeddings;
                nrm = linalg_norm avg + 1 / 10 ^ 8
            in Inr (map (\<lambda>x. x / nrm) avg)))"

text \<open>
  \<open>sklearn.metrics.pairwise.cosine_similarity\<close> on two row vectors: each row is
  divided by its norm, a zero norm being replaced by 1, and the rows are multiplied.
  Its input validation raises ValueError for a row without features and for rows of
  different lengths.
\<close>

definition normalize :: "real list \<Rightarrow> real list" where
  "normalize v = (let n = linalg_norm v; n' = (if n = 0 then 1 else n) in map (\<lambda>x. x / n') v)"

definition cosine_similarity :: "real list \<Rightarrow> real list \<Rightarrow> real" where
  "cosine_similarity a b = sum_list (map (\<lambda>(x, y). x * y) (zip (normalize a) (normalize b)))"

definition compute_similarity :: "real list \<Rightarrow> real list \<Rightarrow> exn + real" where
  "compute_similarity emb1 emb2 =
     (if length emb1 = 0 \<or> length emb2 = 0 then Inl (ValueError Zero_features)
      else if length emb1 \<noteq> length emb2 then
        Inl (ValueError (Incompatible_dimension (length emb1) (length emb2)))
      else Inr (cosine_similarity emb1 emb2))"

section \<open>main.py\<close>

definition SIMILARITY_THRESHOLD :: real where
  "SIMILARITY_THRESHOLD = 60 / 100"

definition LIVENESS_THRESHOLD :: real where
  "LIVENESS_THRESHOLD = 15 / 10"

text \<open>The default of the parameter \<open>direction_threshold\<close>, which the endpoint does not override.\<close>

definition DIRECTION_THRESHOLD :: real where
  "DIRECTION_THRESHOLD = 3 / 10"

datatype http_detail =
    No_object_enrolled
  | Invalid_challenge_ID
  | Authentication_failed exn

datatype http_error = HTTPException nat http_detail

text \<open>A line of \<open>auth_log\<close>: its template and the values it interpolates.\<close>

datatype log_line =
    Extracted_frames nat
  | Liveness_line bool liveness_reason
  | Direction_line bool direction_reason
  | Similarity_line bool real real
  | Result_authenticated
  | Result_rejected string

record liveness_details =
  lv_passed :: bool
  lv_motion_score :: real
  lv_reason :: liveness_reason

record direction_details =
  dr_passed :: bool
  dr_detected :: string
  dr_expected :: string
  dr_confidence :: real
  dr_reason :: direction_reason

record similarity_details =
  sm_passed :: bool
  sm_score :: real
  sm_threshold :: real

record auth_details =
  liveness :: liveness_details
  direction :: direction_details
  similarity :: similarity_details
  auth_log :: "log_line list"

record auth_response =
  success :: bool
  authenticated :: bool
  session_id :: "string option"
  message :: string
  details :: auth_details

text \<open>\<open>str.upper\<close> on the characters of a UUID, and \<open>', '.join\<close>.\<close>

definition upper_char :: "char \<Rightarrow> char" where
  "upper_char c =
     (let k = (of_char c :: nat) in if 97 \<le> k \<and> k \<le> 122 then char_of (k - 32) else c)"

fun join :: "string \<Rightarrow> string list \<Rightarrow> string" where
  "join sep [] = []"
| "join sep [x] = x"
| "join sep (x # y # ys) = x @ sep @ join sep (y # ys)"

text \<open>
  The endpoint \<open>authenticate\<close>, from the point where the bearer token has been resolved
  to a user: \<open>stored_emb\<close> is what \<open>get_embedding\<close> returned for that user, \<open>vid\<close> is
  the uploaded video as OpenCV reads it, and \<open>uuid4\<close> is the text of the random UUID
  that \<open>uuid.uuid4()\<close> draws when the attempt is accepted. The second component of
  the result counts the calls of the flow primitive.
\<close>

definition authenticate ::
  "('f, 'g) vision \<Rightarrow> real list option \<Rightarrow> string \<Rightarrow> 'f video \<Rightarrow> string
     \<Rightarrow> (http_error + auth_response) \<times> nat" where
  "authenticate cv stored_emb challenge_id vid uuid4 =
     (case stored_emb of
        None \<Rightarrow> (Inl (HTTPException 400 No_object_enrolled), 0)
      | Some stored \<Rightarrow>
     (case get_challenge_by_id challenge_id of
        None \<Rightarrow> (Inl (HTTPException 400 Invalid_challenge_ID), 0)
      | Some chal \<Rightarrow>
     (case extract_frames vid 10 of
        Inl e \<Rightarrow> (Inl (HTTPException 500 (Authentication_failed e)), 0)
      | Inr frames \<Rightarrow>
     (let log1 = [Extracted_frames (length frames)];
          (liveness_result, calls1) = check_liveness cv frames LIVENESS_THRESHOLD;
          log2 = log1 @ [Liveness_line (is_live liveness_result) (reason liveness_result)];
          (direction_result, calls2) =
             check_challenge_direction cv frames (expected_direction chal) DIRECTION_THRESHOLD;
          log3 = log2 @ [Direction_line (direction_match direction_result)
                                        (dir_reason direction_result)];
          calls = calls1 + calls2
      in
     (case get_average_embedding cv frames of
        Inl e \<Rightarrow> (Inl (HTTPException 500 (Authentication_failed e)), calls)
      | Inr live_embedding \<Rightarrow>
     (case compute_similarity stored live_embedding of
        Inl e \<Rightarrow> (Inl (HTTPException 500 (Authentication_failed e)), calls)
      | Inr sim \<Rightarrow>
     (let similarity_pass = (SIMILARITY_THRESHOLD \<le> sim);
          log4 = log3 @ [Similarity_line similarity_pass sim SIMILARITY_THRESHOLD];
          is_authenticated =
            (is_live liveness_result \<and> direction_match direction_result \<and> similarity_pass);
          (sid, log5) =
            (if is_authenticated then
               (Some (''SP-'' @ map upper_char (take 8 uuid4)), log4 @ [Result_authenticated])
             else
               (let reasons =
                      (if \<not> is_live liveness_result
                         then [''failed liveness (static/replay)''] else [])
                      @ (if \<not> direction_match direction_result
                           then [''failed challenge direction''] else [])
                      @ (if \<not> similarity_pass then [''object mismatch''] else [])
                in (None, log4 @ [Result_rejected (join '', '' reasons)])))
      in (Inr \<lparr>success = True,
               authenticated = is_authenticated,
               session_id = sid,
               message = (if is_authenticated then ''AUTHENTICATED'' else ''REJECTED''),
               details =
                 \<lparr>liveness =
                    \<lparr>lv_passed = is_live liveness_result,
                     lv_motion_score = motion_score liveness_result,
                     lv_reason = reason liveness_result\<rparr>,
                  direction =
                    \<lparr>dr_passed = direction_match direction_result,
                     dr_detected = detected_direction direction_result,
                     dr_expected = expected_direction chal,
                     dr_confidence = confidence direction_result,
                     dr_reason = dir_reason direction_result\<rparr>,
                  similarity =
                    \<lparr>sm_passed = similarity_pass,
                     sm_score = py_round sim 4,
                     sm_threshold = SIMILARITY_THRESHOLD\<rparr>,
                  auth_log = log5\<rparr>\<rparr>,
          calls))))))))"

section \<open>Definitions for the statements: what the specification says, and concrete inputs\<close>

text \<open>
  A vision stub for the examples: frames are reals, the flow between two frames is the
  one-pixel field with \<open>dx\<close> twice their difference, and every frame has the
  embedding \<open>[1, 0]\<close>.
\<close>

definition demo_vision :: "(real, real) vision" where
  "demo_vision =
     \<lparr>cvtColor_gray = (\<lambda>f. f),
      calcOpticalFlowFarneback = (\<lambda>a b. [[(2 * (b - a), 0)]]),
      frame_to_embedding = (\<lambda>f. [1, 0])\<rparr>"

text \<open>
  A stub whose flow is a fixed \<open>2 \<times> 2\<close> field with the values
  \<open>2\<^sup>-\<^sup>2\<^sup>5\<close>, \<open>10\<^sup>8 / 2\<^sup>2\<^sup>5\<close> and \<open>- 2 \<sqdot> 10\<^sup>8 / 2\<^sup>2\<^sup>5\<close>,
  all of them single-precision floats. The scores of \<open>zoom_out\<close> and \<open>left\<close>
  are both \<open>390625 / 524288\<close> (about 0.745) and the other three are 0; the double
  arithmetic of the code gives the same five numbers.
\<close>

definition tie_vision :: "(real, real) vision" where
  "tie_vision =
     \<lparr>cvtColor_gray = (\<lambda>f. f),
      calcOpticalFlowFarneback =
        (\<lambda>a b. [[(0, 0), (0, 1 / 33554432)], [(390625 / 131072, 0), (- (390625 / 65536), 0)]]),
      frame_to_embedding = (\<lambda>f. [1, 0])\<rparr>"

text \<open>
  The candidates in the order that the specification gives for breaking ties
  (rotation, zoom_in, left, zoom_out, right), and the detection it describes.
\<close>

definition spec_scores :: "direction_info \<Rightarrow> (string \<times> real) list" where
  "spec_scores info =
     [(''rotation'', \<bar>rotation info\<bar>),
      (''zoom_in'', max (expansion info) 0),
      (''left'', max (- horizontal info) 0),
      (''zoom_out'', max (- expansion info) 0),
      (''right'', max (horizontal info) 0)]"

definition spec_detect :: "direction_info \<Rightarrow> string \<times> real" where
  "spec_detect info =
     (let sc = spec_scores info;
          detected = py_max (scores_get sc) (map fst sc)
      in (detected, scores_get sc detected))"

text \<open>
  The sampling indices as the specification words them,
  \<open>round(i (total - 1) / (n - 1))\<close>.
\<close>

definition spec_indices :: "nat \<Rightarrow> nat \<Rightarrow> nat list" where
  "spec_indices tot n = map (\<lambda>i. nat (round (real i * real (tot - 1) / real (n - 1)))) [0..<n]"

text \<open>
  The \<open>i\<close>-th index that \<open>np.linspace(0, tot - 1, n, dtype=int)\<close> gives for
  \<open>n \<ge> 2\<close>.
\<close>

definition double_index :: "nat \<Rightarrow> nat \<Rightarrow> nat \<Rightarrow> nat" where
  "double_index tot n i =
     (if i = n - 1 then tot - 1
      else nat \<lfloor>fl64 (real i * fl64 (real (tot - 1) / real (n - 1)))\<rfloor>)"

text \<open>
  A video of 123 frames (each frame is its own index) whose container reports the count.
\<close>

definition video123 :: "nat video" where
  "video123 = \<lparr>isOpened = True, frame_count = 123, stream = [0..<123]\<rparr>"

text \<open>
  A video of twelve frames (each frame is its own index) whose container reports the count.
\<close>

definition video12 :: "nat video" where
  "video12 = \<lparr>isOpened = True, frame_count = 12, stream = [0, 1, 2, 3, 4, 5, 6, 7, 8, 9, 10, 11]\<rparr>"

text \<open>
  The arithmetic mean of the embeddings of \<open>frames\<close>, component by component.
\<close>

definition mean_vector :: "('f, 'g) vision \<Rightarrow> 'f list \<Rightarrow> nat \<Rightarrow> real list" where
  "mean_vector cv frames D =
     map (\<lambda>j. sum_list (map (\<lambda>f. frame_to_embedding cv f ! j) frames) / real (length frames)) [0..<D]"

text \<open>
  A three-frame video without a frame count in its container, a stored vector at cosine
  \<open>0.6\<close> from \<open>[1, 0]\<close>, and two UUID texts.
\<close>

definition demo_video :: "real video" where
  "demo_video = \<lparr>isOpened = True, frame_count = 0, stream = [0, 1, 2]\<rparr>"

definition demo_stored :: "real list" where
  "demo_stored = [3 / 5, 4 / 5]"

definition demo_uuid :: string where
  "demo_uuid = ''1b9d6bcd-bbfd-4b2d-9b5d-ab8dfbbd4bed''"

definition other_uuid :: string where
  "other_uuid = ''6ec0bd7f-11c0-43da-975e-2a8ad9ebae0b''"

text \<open>
  A stub whose embedding depends on the frame.
\<close>

definition ramp_vision :: "(real, real) vision" where
  "ramp_vision =
     \<lparr>cvtColor_gray = (\<lambda>f. f),
      calcOpticalFlowFarneback = (\<lambda>a b. [[(2 * (b - a), 0)]]),
      frame_to_embedding = (\<lambda>f. [f, 1])\<rparr>"

text \<open>
  A video of a single frame.
\<close>

definition single_frame_video :: "real video" where
  "single_frame_video = \<lparr>isOpened = True, frame_count = 0, stream = [0]\<rparr>"

section \<open>The first maximal element\<close>

lemma max_by_spec:
  "\<exists>i < length (b # xs). (b # xs) ! i = max_by key b xs
      \<and> (\<forall>j < length (b # xs). key ((b # xs) ! j) \<le> key (max_by key b xs))
      \<and> (\<forall>j < i. key ((b # xs) ! j) < key (max_by key b xs))"
proof (induction xs arbitrary: b)
  case Nil
  show ?case by simp
next
  case (Cons x xs)
  let ?b' = "if key b < key x then x else b"
  from Cons.IH [of ?b'] obtain i where i: "i < length (?b' # xs)"
    "(?b' # xs) ! i = max_by key ?b' xs"
    "\<forall>j < length (?b' # xs). key ((?b' # xs) ! j) \<le> key (max_by key ?b' xs)"
    "\<forall>j < i. key ((?b' # xs) ! j) < key (max_by key ?b' xs)"
    by blast
  have m: "max_by key b (x # xs) = max_by key ?b' xs" by simp
  from i(3) have b'le: "key ?b' \<le> key (max_by key ?b' xs)" by force
  show ?case
  proof (cases "key b < key x")
    case True
    let ?i = "Suc i"
    have 1: "?i < length (b # x # xs)" using i(1) by simp
    have 2: "(b # x # xs) ! ?i = max_by key b (x # xs)" using i(2) True by simp
    have 3: "\<forall>j < length (b # x # xs). key ((b # x # xs) ! j) \<le> key (max_by key b (x # xs))"
    proof (intro allI impI)
      fix j assume j: "j < length (b # x # xs)"
      show "key ((b # x # xs) ! j) \<le> key (max_by key b (x # xs))"
      proof (cases j)
        case 0
        then show ?thesis using b'le True by simp
      next
        case (Suc k)
        then show ?thesis using i(3) j True by simp
      qed
    qed
    have 4: "\<forall>j < ?i. key ((b # x # xs) ! j) < key (max_by key b (x # xs))"
    proof (intro allI impI)
      fix j assume j: "j < ?i"
      show "key ((b # x # xs) ! j) < key (max_by key b (x # xs))"
      proof (cases j)
        case 0
        then show ?thesis using b'le True by simp
      next
        case (Suc k)
        then show ?thesis using i(4) j True by simp
      qed
    qed
    from 1 2 3 4 show ?thesis by blast
  next
    case False
    show ?thesis
    proof (cases i)
      case 0
      have 1: "0 < length (b # x # xs)" by simp
      have 2: "(b # x # xs) ! 0 = max_by key b (x # xs)" using i(2) 0 False by simp
      have 3: "\<forall>j < length (b # x # xs). key ((b # x # xs) ! j) \<le> key (max_by key b (x # xs))"
      proof (intro allI impI)
        fix j assume j: "j < length (b # x # xs)"
        show "key ((b # x # xs) ! j) \<le> key (max_by key b (x # xs))"
        proof (cases j)
          case 0
          then show ?thesis using b'le False by simp
        next
          case (Suc k)
          show ?thesis
          proof (cases k)
            case 0
            then show ?thesis using Suc b'le False by simp
          next
            case (Suc l)
            then show ?thesis using \<open>j = Suc k\<close> i(3) j False by force
          qed
        qed
      qed
      from 1 2 3 show ?thesis by (metis not_less_zero)
    next
      case (Suc i')
      let ?i = "Suc i"
      have 1: "?i < length (b # x # xs)" using i(1) by simp
      have 2: "(b # x # xs) ! ?i = max_by key b (x # xs)" using i(2) False Suc by simp
      have 3: "\<forall>j < length (b # x # xs). key ((b # x # xs) ! j) \<le> key (max_by key b (x # xs))"
      proof (intro allI impI)
        fix j assume j: "j < length (b # x # xs)"
        show "key ((b # x # xs) ! j) \<le> key (max_by key b (x # xs))"
        proof (cases j)
          case 0
          then show ?thesis using b'le False by simp
        next
          case (Suc k)
          show ?thesis
          proof (cases k)
            case 0
            then show ?thesis using Suc b'le False by simp
          next
            case (Suc l)
            then show ?thesis using \<open>j = Suc k\<close> i(3) j False by force
          qed
        qed
      qed
      have b'lt: "key b < key (max_by key b (x # xs))"
        using i(4) Suc False by force
      have 4: "\<forall>j < ?i. key ((b # x # xs) ! j) < key (max_by key b (x # xs))"
      proof (intro allI impI)
        fix j assume j: "j < ?i"
        show "key ((b # x # xs) ! j) < key (max_by key b (x # xs))"
        proof (cases j)
          case 0
          then show ?thesis using b'lt by simp
        next
          case (Suc k)
          show ?thesis
          proof (cases k)
            case 0
            then show ?thesis using Suc b'lt False by simp
          next
            case (Suc l)
            then show ?thesis using \<open>j = Suc k\<close> i(4) j False by force
          qed
        qed
      qed
      from 1 2 3 4 show ?thesis by blast
    qed
  qed
qed

section \<open>The flow loop and the direction scores\<close>

lemma compute_optical_flow_calls:
  "snd (compute_optical_flow cv frames) = length frames - 1"
proof -
  have "\<And>acc. snd (fold (\<lambda>i (flows, calls). (flows @ [f i], calls + 1)) is acc) = snd acc + length is" for f :: "nat \<Rightarrow> flow" and "is" :: "nat list"
    by (induction "is") (auto simp: case_prod_beta)
  then show ?thesis by (simp add: compute_optical_flow_def Let_def)
qed

lemma scores_get_nth:
  "j < 5 \<Longrightarrow> scores_get (scores info) (fst (scores info ! j)) = snd (scores info ! j)"
  by (auto simp: scores_get_def scores_def less_Suc_eq numeral_nat)

lemma detect_first_max:
  "\<exists>i < 5. scores info ! i = detect info
     \<and> (\<forall>j < 5. snd (scores info ! j) \<le> snd (detect info))
     \<and> (\<forall>j < i. snd (scores info ! j) < snd (detect info))"
proof -
  let ?sc = "scores info"
  let ?ks = "map fst ?sc"
  have len: "length ?sc = 5" by (simp add: scores_def)
  have ks: "?ks = hd ?ks # tl ?ks" by (simp add: scores_def)
  from max_by_spec [of "hd ?ks" "tl ?ks" "scores_get ?sc"]
  obtain i where i: "i < length ?ks" "?ks ! i = py_max (scores_get ?sc) ?ks"
    "\<forall>j < length ?ks. scores_get ?sc (?ks ! j) \<le> scores_get ?sc (py_max (scores_get ?sc) ?ks)"
    "\<forall>j < i. scores_get ?sc (?ks ! j) < scores_get ?sc (py_max (scores_get ?sc) ?ks)"
    unfolding py_max_def using ks by metis
  have i5: "i < 5" using i(1) len by simp
  have d: "detect info = (?ks ! i, scores_get ?sc (?ks ! i))"
    using i(2) by (simp add: detect_def Let_def)
  have nth: "\<And>j. j < 5 \<Longrightarrow> ?ks ! j = fst (?sc ! j)" using len by simp
  have e: "?sc ! i = detect info"
    using d nth [OF i5] scores_get_nth [OF i5, of info] by (simp add: prod_eq_iff)
  have le: "\<forall>j < 5. snd (?sc ! j) \<le> snd (detect info)"
  proof (intro allI impI)
    fix j :: nat assume j: "j < 5"
    then have "scores_get ?sc (?ks ! j) \<le> scores_get ?sc (?ks ! i)" using i(3) i(2) len by simp
    then show "snd (?sc ! j) \<le> snd (detect info)"
      using nth [OF j] scores_get_nth [OF j, of info] d by simp
  qed
  have lt: "\<forall>j < i. snd (?sc ! j) < snd (detect info)"
  proof (intro allI impI)
    fix j :: nat assume ji: "j < i"
    then have j: "j < 5" using i5 by simp
    from ji have "scores_get ?sc (?ks ! j) < scores_get ?sc (?ks ! i)" using i(4) i(2) by simp
    then show "snd (?sc ! j) < snd (detect info)"
      using nth [OF j] scores_get_nth [OF j, of info] d by simp
  qed
  from i5 e le lt show ?thesis by blast
qed

lemma scores_length: "length (scores info) = 5"
  by (simp add: scores_def)

lemma detect_in_scores: "detect info \<in> set (scores info)"
proof -
  from detect_first_max [of info] obtain i where i: "i < 5" "scores info ! i = detect info" by blast
  have "scores info ! i \<in> set (scores info)" using i(1) scores_length [of info] by simp
  then show ?thesis using i(2) by simp
qed

lemma scores_nonneg: "kv \<in> set (scores info) \<Longrightarrow> 0 \<le> snd kv"
  by (auto simp: scores_def)

lemma scores_keys:
  "kv \<in> set (scores info) \<Longrightarrow> fst kv \<in> {''rotation'', ''zoom_in'', ''zoom_out'', ''left'', ''right''}"
  by (auto simp: scores_def)

lemma detect_conf_nonneg: "0 \<le> snd (detect info)"
  using scores_nonneg [OF detect_in_scores] .

lemma detect_fst_in:
  "fst (detect info) \<in> {''rotation'', ''zoom_in'', ''zoom_out'', ''left'', ''right''}"
  using scores_keys [OF detect_in_scores] .

lemma detect_conf_Max: "snd (detect info) = Max (snd ` set (scores info))"
proof (rule sym, rule Max_eqI)
  show "finite (snd ` set (scores info))" by simp
next
  fix y assume "y \<in> snd ` set (scores info)"
  then obtain j where j: "j < length (scores info)" "y = snd (scores info ! j)"
    by (auto simp: in_set_conv_nth)
  from j(1) have "j < 5" using scores_length [of info] by simp
  then have "snd (scores info ! j) \<le> snd (detect info)" using detect_first_max [of info] by blast
  then show "y \<le> snd (detect info)" using j(2) by simp
next
  show "snd (detect info) \<in> snd ` set (scores info)" using detect_in_scores [of info] by force
qed

lemma py_round_nonneg: "0 \<le> x \<Longrightarrow> 0 \<le> py_round x nd"
proof -
  assume x: "0 \<le> x"
  then have "0 \<le> x * 10 ^ nd" by simp
  then have "0 \<le> \<lfloor>x * 10 ^ nd\<rfloor>" by simp
  then have "0 \<le> round_half_even (x * 10 ^ nd)" by (simp add: round_half_even_def Let_def)
  then show ?thesis by (simp add: py_round_def)
qed

section \<open>The direction classifier by cases\<close>

lemma check_challenge_direction_short:
  "length frames < 2 \<Longrightarrow>
   check_challenge_direction cv frames e t =
     (\<lparr>direction_match = False, detected_direction = ''unknown'', confidence = 0,
       dir_reason = Insufficient_frames_for_direction_analysis, flow_details = None\<rparr>, 0)"
  by (simp add: check_challenge_direction_def)

lemma check_challenge_direction_long:
  assumes "2 \<le> length frames"
  shows "check_challenge_direction cv frames e t =
     (let d = fst (detect (motion_of cv frames)); c = snd (detect (motion_of cv frames))
      in (\<lparr>direction_match = (t < c), detected_direction = d, confidence = py_round c 3,
            dir_reason = (if t < c then (if d = e then Challenge_direction_matched d c
                                        else Accepted_with_MVP_leniency d c e)
                          else Direction_mismatch_or_weak_motion d c e),
            flow_details = Some (round_info (motion_of cv frames))\<rparr>,
          length frames - 1))"
proof -
  obtain flows calls where fc: "compute_optical_flow cv frames = (flows, calls)"
    by (cases "compute_optical_flow cv frames")
  have calls: "calls = length frames - 1" using compute_optical_flow_calls [of cv frames] fc by simp
  obtain d c where dc: "detect (detect_dominant_direction flows) = (d, c)"
    by (cases "detect (detect_dominant_direction flows)")
  have m: "motion_of cv frames = detect_dominant_direction flows"
    by (simp add: motion_of_def fc)
  show ?thesis using assms
    by (simp add: check_challenge_direction_def fc m dc calls Let_def)
qed

lemma scores_nth_keys:
  "fst (scores info ! 0) = ''rotation''" "fst (scores info ! 1) = ''zoom_in''"
  "fst (scores info ! 2) = ''zoom_out''" "fst (scores info ! 3) = ''left''"
  "fst (scores info ! 4) = ''right''"
  by (simp_all add: scores_def)

lemma scores_nth_values:
  "snd (scores info ! 2) = max (- expansion info) 0"
  "snd (scores info ! 3) = max (- horizontal info) 0"
  by (simp_all add: scores_def)

lemma less_5_cases: "i < 5 \<Longrightarrow> i = 0 \<or> i = 1 \<or> i = 2 \<or> i = 3 \<or> i = (4::nat)"
  by linarith

lemma detect_left_strict:
  assumes "fst (detect info) = ''left''"
  shows "max (- expansion info) 0 < max (- horizontal info) 0"
proof -
  from detect_first_max [of info] obtain i where
    i: "i < 5" "scores info ! i = detect info"
       "\<forall>j < i. snd (scores info ! j) < snd (detect info)"
    by blast
  have k: "fst (scores info ! i) = ''left''" using i(2) assms by simp
  have "i = 3" using less_5_cases [OF i(1)] k scores_nth_keys [of info] by auto
  then have "snd (scores info ! 2) < snd (scores info ! 3)" using i(2,3) by simp
  then show ?thesis by (simp only: scores_nth_values)
qed

lemma detect_zoom_out_weak:
  assumes "fst (detect info) = ''zoom_out''"
  shows "max (- horizontal info) 0 \<le> max (- expansion info) 0"
proof -
  from detect_first_max [of info] obtain i where
    i: "i < 5" "scores info ! i = detect info"
       "\<forall>j < 5. snd (scores info ! j) \<le> snd (detect info)"
    by blast
  have k: "fst (scores info ! i) = ''zoom_out''" using i(2) assms by simp
  have "i = 2" using less_5_cases [OF i(1)] k scores_nth_keys [of info] by auto
  then have "snd (scores info ! 3) \<le> snd (scores info ! 2)" using i(2,3) by simp
  then show ?thesis by (simp only: scores_nth_values)
qed

section \<open>The classifier on the concrete flows\<close>

lemma flow_means_1x1: "flow_means [[(a, b)]] = (a, b, 0, 0)"
  by (simp add: flow_means_def flow_shape_def pixel_components_def np_mean_def)

lemma demo3_flows: "compute_optical_flow demo_vision [0, 1, 2] = ([[[(2, 0)]], [[(2, 0)]]], 2)"
  by (simp add: compute_optical_flow_def demo_vision_def numeral_2_eq_2)

lemma demo3_motion: "motion_of demo_vision [0, 1, 2] = \<lparr>horizontal = 2, vertical = 0, expansion = 0, rotation = 0\<rparr>"
  by (simp add: motion_of_def demo3_flows detect_dominant_direction_def flow_means_1x1)

lemma demoC_flows: "compute_optical_flow demo_vision [0, 1/4] = ([[[(1/2, 0)]]], 1)"
  by (simp add: compute_optical_flow_def demo_vision_def)

lemma demoC_motion: "motion_of demo_vision [0, 1/4] = \<lparr>horizontal = 1/2, vertical = 0, expansion = 0, rotation = 0\<rparr>"
  by (simp add: motion_of_def demoC_flows detect_dominant_direction_def flow_means_1x1)

lemma detect_right: "0 < h \<Longrightarrow> detect \<lparr>horizontal = h, vertical = 0, expansion = 0, rotation = 0\<rparr> = (''right'', h)"
  by (simp add: detect_def scores_def scores_get_def py_max_def)

lemma tie_flows:
  "compute_optical_flow tie_vision [0, 1]
     = ([[[(0, 0), (0, 1 / 33554432)], [(390625 / 131072, 0), (- (390625 / 65536), 0)]]], 1)"
  by (simp add: compute_optical_flow_def tie_vision_def)

lemma tie_means:
  "flow_means [[(0, 0), (0, 1 / 33554432)], [(390625 / 131072, 0), (- (390625 / 65536), 0)]]
     = (- (390625 / 524288), 1 / 134217728, - (390625 / 524288), 0)"
  by (simp add: flow_means_def flow_shape_def pixel_components_def np_mean_def enumerate_eq_zip)

lemma tie_motion: "motion_of tie_vision [0, 1] = \<lparr>horizontal = - (390625 / 524288), vertical = 1 / 134217728,
        expansion = - (390625 / 524288), rotation = 0\<rparr>"
  by (simp add: motion_of_def tie_flows detect_dominant_direction_def tie_means del: One_nat_def)

lemma tie_detect: "detect \<lparr>horizontal = - (390625 / 524288), vertical = 1 / 134217728,
        expansion = - (390625 / 524288), rotation = 0\<rparr> = (''zoom_out'', 390625 / 524288)"
  by (simp add: detect_def scores_def scores_get_def py_max_def)

lemma tie_spec_detect: "spec_detect \<lparr>horizontal = - (390625 / 524288), vertical = 1 / 134217728,
        expansion = - (390625 / 524288), rotation = 0\<rparr> = (''left'', 390625 / 524288)"
  by (simp add: spec_detect_def spec_scores_def scores_get_def py_max_def)

lemma tie_scores:
  "scores (motion_of tie_vision [0, 1])
     = [(''rotation'', 0), (''zoom_in'', 0), (''zoom_out'', 390625 / 524288),
        (''left'', 390625 / 524288), (''right'', 0)]"
  by (simp add: tie_motion scores_def)

section \<open>Rounding to double, and \<open>np.linspace\<close> on concrete arguments\<close>

lemma round_half_even_err: "\<bar>of_int (round_half_even y) - y\<bar> \<le> 1 / 2"
proof -
  have "of_int \<lfloor>y\<rfloor> \<le> y" "y < of_int \<lfloor>y\<rfloor> + 1" by linarith+
  then show ?thesis by (auto simp: round_half_even_def Let_def)
qed

lemma round_half_even_of_int: "round_half_even (of_int z) = z"
  by (simp add: round_half_even_def Let_def)

lemma fl64_zero: "fl64 0 = 0"
  by (simp add: fl64_def)

lemma fl64_ge1:
  assumes "2 ^ k \<le> x" and "x < 2 ^ Suc k" and "k \<le> 52"
  shows "fl64 x = of_int (round_half_even (x * 2 ^ (52 - k))) / 2 ^ (52 - k)"
proof -
  have x: "0 < x" using assms(1) zero_less_power [of "2::real" k] by linarith
  have "\<lfloor>log 2 x\<rfloor> = int k"
    using assms(1,2) x by (subst floor_log_eq_powr_iff) (simp_all add: powr_realpow powr_add)
  then have e: "\<lfloor>log 2 \<bar>x\<bar>\<rfloor> = int k" using x by simp
  have pc: "(2::real) powr real (52 - k) = 2 ^ (52 - k)" by (rule powr_realpow) simp
  have "of_int (int k) - 52 = - real (52 - k)" using assms(3) by simp
  then have "(2::real) powr (of_int (int k) - 52) = 2 powr (- real (52 - k))"
    by (simp only:)
  also have "\<dots> = inverse (2 ^ (52 - k))"
    using pc by (simp only: powr_minus)
  finally have q: "(2::real) powr (of_int (int k) - 52) = inverse (2 ^ (52 - k))" .
  show ?thesis using x unfolding fl64_def e q Let_def by (simp add: field_simps)
qed

lemma fl64_lt1:
  assumes "1 \<le> x * 2 ^ Suc k" and "x * 2 ^ k < 1"
  shows "fl64 x = of_int (round_half_even (x * 2 ^ (53 + k))) / 2 ^ (53 + k)"
proof -
  have "0 < x * 2 ^ Suc k" using assms(1) by linarith
  then have x: "0 < x" by (simp add: zero_less_mult_iff)
  have "(2::real) powr real (Suc k) = 2 ^ Suc k" by (rule powr_realpow) simp
  then have pa: "(2::real) powr (- real (Suc k)) = inverse (2 ^ Suc k)"
    by (simp only: powr_minus)
  have "- real (Suc k) + 1 = - real k" by simp
  then have "(2::real) powr (- real (Suc k) + 1) = 2 powr (- real k)" by (simp only:)
  also have "\<dots> = inverse (2 ^ k)"
    by (simp only: powr_minus) (simp add: powr_realpow)
  finally have pb: "(2::real) powr (- real (Suc k) + 1) = inverse (2 ^ k)" .
  have a: "2 powr (- real (Suc k)) \<le> x"
    unfolding pa using assms(1) by (simp add: field_simps)
  have b: "x < 2 powr (- real (Suc k) + 1)"
    unfolding pb using assms(2) by (simp add: field_simps)
  have "\<lfloor>log 2 x\<rfloor> = - int (Suc k)"
    using a b x by (subst floor_log_eq_powr_iff) simp_all
  then have e: "\<lfloor>log 2 \<bar>x\<bar>\<rfloor> = - int (Suc k)" using x by simp
  have pc: "(2::real) powr real (53 + k) = 2 ^ (53 + k)" by (rule powr_realpow) simp
  have "of_int (- int (Suc k)) - 52 = - real (53 + k)" by simp
  then have "(2::real) powr (of_int (- int (Suc k)) - 52) = 2 powr (- real (53 + k))"
    by (simp only:)
  also have "\<dots> = inverse (2 ^ (53 + k))"
    using pc by (simp only: powr_minus)
  finally have q: "(2::real) powr (of_int (- int (Suc k)) - 52) = inverse (2 ^ (53 + k))" .
  show ?thesis using x unfolding fl64_def e q Let_def by (simp add: field_simps)
qed

lemma fl64_nonneg: "0 \<le> x \<Longrightarrow> 0 \<le> fl64 x"
proof -
  assume x: "0 \<le> x"
  have q: "0 < (2::real) powr t" for t by simp
  have "0 \<le> round_half_even y" if "0 \<le> y" for y
  proof -
    from that have "0 \<le> \<lfloor>y\<rfloor>" by simp
    then show ?thesis by (simp add: round_half_even_def Let_def)
  qed
  then show ?thesis using x by (simp add: fl64_def Let_def)
qed

lemma fl64_err:
  assumes "0 \<le> x"
  shows "\<bar>fl64 x - x\<bar> \<le> x / 2 ^ 53"
proof (cases "x = 0")
  case True
  then show ?thesis by (simp add: fl64_def)
next
  case False
  then have x: "0 < x" using assms by simp
  define e where "e = \<lfloor>log 2 x\<rfloor>"
  define q where "q = (2::real) powr (of_int e - 52)"
  have qpos: "0 < q" by (simp add: q_def)
  have lo: "2 powr (of_int e) \<le> x"
    using floor_log_eq_powr_iff [of x 2 e] x by (simp add: e_def)
  have f: "fl64 x = of_int (round_half_even (x / q)) * q"
    using x by (simp add: fl64_def e_def q_def Let_def)
  have "fl64 x - x = (of_int (round_half_even (x / q)) - x / q) * q"
    using qpos by (simp add: f field_simps)
  then have "\<bar>fl64 x - x\<bar> = \<bar>of_int (round_half_even (x / q)) - x / q\<bar> * q"
    using qpos by (simp add: abs_mult)
  also have "\<dots> \<le> (1 / 2) * q"
    using round_half_even_err [of "x / q"] qpos by (intro mult_right_mono) simp_all
  also have "\<dots> = 2 powr (of_int e) / 2 ^ 53"
  proof -
    have p52: "(2::real) powr 52 = 2 ^ 52" by (rule powr_numeral) simp
    have "q = 2 powr (of_int e) / 2 powr 52" unfolding q_def by (rule powr_diff)
    then have "q = 2 powr (of_int e) / 2 ^ 52" unfolding p52 .
    moreover have "(2::real) ^ 53 = 2 * 2 ^ 52" by simp
    ultimately show ?thesis by (simp only: times_divide_eq_right mult_1 divide_divide_eq_left mult.commute)
  qed
  also have "\<dots> \<le> x / 2 ^ 53" using lo by (simp add: divide_right_mono)
  finally show ?thesis .
qed

lemma fl64_nat_exact:
  assumes "m < 2 ^ 53"
  shows "fl64 (real m) = real m"
proof (cases "m = 0")
  case True
  then show ?thesis by (simp add: fl64_def)
next
  case False
  then have m: "0 < m" by simp
  define k where "k = (LEAST k. m < 2 ^ Suc k)"
  have ex: "m < 2 ^ Suc m" by (metis less_exp Suc_lessD lessI less_trans_Suc power_Suc) 
  have hi: "m < 2 ^ Suc k" unfolding k_def by (rule LeastI [of "\<lambda>k. m < 2 ^ Suc k", OF ex])
  have lo: "2 ^ k \<le> m"
  proof (cases k)
    case 0
    then show ?thesis using m by simp
  next
    case (Suc j)
    have "\<not> m < 2 ^ Suc j"
      using not_less_Least [of j "\<lambda>k. m < 2 ^ Suc k"] Suc by (simp add: k_def)
    then show ?thesis using Suc by simp
  qed
  have k52: "k \<le> 52"
  proof (rule ccontr)
    assume "\<not> k \<le> 52"
    then have "53 \<le> k" by simp
    then have "(2::nat) ^ 53 \<le> 2 ^ k" by (intro power_increasing) simp_all
    then show False using lo assms by simp
  qed
  have lo': "(2::real) ^ k \<le> real m" using lo by (metis of_nat_le_iff of_nat_numeral of_nat_power)
  have hi': "real m < 2 ^ Suc k" using hi by (metis of_nat_less_iff of_nat_numeral of_nat_power)
  have "real m * 2 ^ (52 - k) = of_int (int (m * 2 ^ (52 - k)))" by simp
  then have "round_half_even (real m * 2 ^ (52 - k)) = int (m * 2 ^ (52 - k))"
    using round_half_even_of_int by metis
  then show ?thesis unfolding fl64_ge1 [OF lo' hi' k52] by simp
qed

lemmas fl64_eval =
  fl64_zero fl64_ge1 [of 0] fl64_ge1 [of 1] fl64_ge1 [of 2] fl64_ge1 [of 3] fl64_ge1 [of 4]
  fl64_ge1 [of 5] fl64_ge1 [of 6] fl64_lt1 [of _ 0] fl64_lt1 [of _ 1] fl64_lt1 [of _ 2]

lemma upt10: "[0..<10] = [0, 1, 2, 3, 4, 5, 6, 7, 8, 9]"
  by (simp add: upt_rec)

lemma upt15: "[0..<15] = [0, 1, 2, 3, 4, 5, 6, 7, 8, 9, 10, 11, 12, 13, 14]"
  by (simp add: upt_rec)

lemma linspace_11_10: "np_linspace_int 11 10 = [0, 1, 2, 3, 4, 6, 7, 8, 9, 11]"
  by (simp add: np_linspace_int_def upt10 fl64_eval round_half_even_def)

lemma linspace_2_10: "np_linspace_int 2 10 = [0, 0, 0, 0, 0, 1, 1, 1, 1, 2]"
  by (simp add: np_linspace_int_def upt10 fl64_eval round_half_even_def)

lemma linspace_122_15:
  "np_linspace_int 122 15 = [0, 8, 17, 26, 34, 43, 52, 60, 69, 78, 87, 95, 104, 113, 122]"
  by (simp add: np_linspace_int_def upt15 fl64_eval round_half_even_def)

section \<open>Frame sampling on concrete videos\<close>

lemma spec_12_10: "spec_indices 12 10 = [0, 1, 2, 4, 5, 6, 7, 9, 10, 11]"
  by (simp add: spec_indices_def upt10 round_def)

lemma extract12: "extract_frames video12 10 = Inr [0, 1, 2, 3, 4, 6, 7, 8, 9, 11]"
  by (simp add: extract_frames_def video12_def linspace_11_10 read_at_def)

lemma extract_repeats:
  "extract_frames \<lparr>isOpened = True, frame_count = 3, stream = [10, 11, 12 :: nat]\<rparr> 10
     = Inr [10, 10, 10, 10, 10, 11, 11, 11, 11, 12]"
  by (simp add: extract_frames_def linspace_2_10 read_at_def)

section \<open>Frame sampling in general\<close>

lemma concat_map_read_all:
  assumes "\<forall>idx \<in> set indices. idx < length (stream v)"
  shows "concat (map (\<lambda>idx. case read_at v idx of Some frame \<Rightarrow> [frame] | None \<Rightarrow> []) indices)
           = map (\<lambda>idx. stream v ! idx) indices"
  using assms by (induction indices) (auto simp: read_at_def)

lemma concat_map_read_none:
  assumes "stream v = []"
  shows "concat (map (\<lambda>idx. case read_at v idx of Some frame \<Rightarrow> [frame] | None \<Rightarrow> []) indices) = []"
  using assms by (induction indices) (auto simp: read_at_def)

lemma double_product_close:
  assumes d: "1 \<le> d" and sd: "d \<le> stop" and i: "i < d"
  shows "\<bar>fl64 (real i * fl64 (real stop / real d)) - real i * real stop / real d\<bar>
           \<le> 3 * real stop / 2 ^ 53"
proof -
  define s where "s = real stop / real d"
  define e where "e = real i * s"
  define step where "step = fl64 s"
  define p where "p = real i * step"
  define eps :: real where "eps = 1 / 2 ^ 53"
  have eps: "0 < eps" "eps \<le> 1" by (simp_all add: eps_def)
  have dpos: "0 < real d" using d by simp
  have s0: "0 \<le> s" by (simp add: s_def)
  have e0: "0 \<le> e" using s0 by (simp add: e_def)
  have "real i \<le> real d" using i by simp
  then have "real i * real stop \<le> real d * real stop" by (intro mult_right_mono) simp_all
  then have "e \<le> real stop"
    unfolding e_def s_def using dpos by (simp add: pos_divide_le_eq mult.commute)
  have st: "\<bar>step - s\<bar> \<le> s * eps"
    using fl64_err [OF s0] by (simp add: step_def eps_def)
  have p0: "0 \<le> p" unfolding p_def step_def using fl64_nonneg [OF s0] by simp
  have "\<bar>p - e\<bar> = real i * \<bar>step - s\<bar>"
    unfolding p_def e_def by (simp add: right_diff_distrib [symmetric] abs_mult)
  also have "\<dots> \<le> real i * (s * eps)" using st by (intro mult_left_mono) simp_all
  finally have pe: "\<bar>p - e\<bar> \<le> e * eps" by (simp add: e_def mult.assoc)
  then have ple: "p \<le> e + e * eps" by linarith
  have yp: "\<bar>fl64 p - p\<bar> \<le> p * eps" using fl64_err [OF p0] by (simp add: eps_def)
  have "p * eps \<le> (e + e * eps) * eps" using ple eps by (intro mult_right_mono) simp_all
  also have "\<dots> \<le> (e + e) * eps"
  proof -
    have "e * eps \<le> e * 1" using eps e0 by (intro mult_left_mono) simp_all
    then show ?thesis using eps by (intro mult_right_mono) simp_all
  qed
  finally have "p * eps \<le> 2 * e * eps" by simp
  with yp pe have "\<bar>fl64 p - e\<bar> \<le> 3 * e * eps" by linarith
  also have "\<dots> \<le> 3 * real stop * eps"
    using \<open>e \<le> real stop\<close> eps by (intro mult_right_mono mult_left_mono) simp_all
  finally show ?thesis by (simp add: p_def step_def e_def s_def eps_def)
qed

lemma double_index_char:
  assumes d: "1 \<le> d" and sd: "d \<le> stop" and i: "i < d" and small: "stop * d \<le> 2 ^ 50"
  shows "\<lfloor>fl64 (real i * fl64 (real stop / real d))\<rfloor> = \<lfloor>real i * real stop / real d\<rfloor>
       \<or> (\<lfloor>fl64 (real i * fl64 (real stop / real d))\<rfloor> = \<lfloor>real i * real stop / real d\<rfloor> - 1
           \<and> d dvd i * stop)"
proof -
  define e where "e = real i * real stop / real d"
  define y where "y = fl64 (real i * fl64 (real stop / real d))"
  define f where "f = \<lfloor>e\<rfloor>"
  have dpos: "0 < real d" using d by simp
  have "real (stop * d) \<le> 2 ^ 50" using small by (metis of_nat_le_iff of_nat_numeral of_nat_power)
  then have sm: "real stop * real d \<le> 2 ^ 50" by simp
  have "3 * real stop / 2 ^ 53 * real d = 3 * (real stop * real d) / 2 ^ 53" by simp
  also have "\<dots> \<le> 3 * 2 ^ 50 / 2 ^ 53" using sm by (intro divide_right_mono mult_left_mono) simp_all
  also have "\<dots> < 1" by simp
  finally have "3 * real stop / 2 ^ 53 * real d < 1" .
  then have delta: "3 * real stop / 2 ^ 53 < 1 / real d"
    using dpos by (simp add: pos_less_divide_eq)
  have close: "\<bar>y - e\<bar> \<le> 3 * real stop / 2 ^ 53"
    unfolding y_def e_def by (rule double_product_close [OF d sd i])
  have d1: "1 / real d \<le> 1" using d by simp
  have ed: "e * real d = real (i * stop)" using dpos by (simp add: e_def)
  show ?thesis
  proof (cases "d dvd i * stop")
    case True
    then obtain k where k: "i * stop = d * k" by (auto simp: dvd_def)
    have "e = real k" using dpos k ed by (simp add: field_simps)
    then have fe: "of_int f = e" by (simp add: f_def)
    have "y < e + 1" "e - 1 < y" using close delta d1 by linarith+
    then have "f - 1 \<le> \<lfloor>y\<rfloor>" "\<lfloor>y\<rfloor> \<le> f" using fe by linarith+
    then have "\<lfloor>y\<rfloor> = f \<or> \<lfloor>y\<rfloor> = f - 1" by linarith
    then show ?thesis using True by (auto simp: y_def f_def e_def)
  next
    case False
    have flo: "of_int f \<le> e" "e < of_int f + 1" unfolding f_def by linarith+
    have f0: "0 \<le> f" unfolding f_def e_def by simp
    have ne: "int (i * stop) \<noteq> f * int d"
    proof
      assume a: "int (i * stop) = f * int d"
      then have "i * stop = nat f * d" using f0 by (metis nat_int nat_mult_distrib of_nat_0_le_iff nat_int)
      then show False using False by simp
    qed
    have "of_int f * real d \<le> e * real d" using flo(1) dpos by (intro mult_right_mono) simp_all
    then have "real_of_int (f * int d) \<le> real_of_int (int (i * stop))" using ed by simp
    then have "f * int d \<le> int (i * stop)" by linarith
    with ne have "f * int d + 1 \<le> int (i * stop)" by linarith
    then have "real_of_int (f * int d + 1) \<le> real_of_int (int (i * stop))" by linarith
    then have "of_int f * real d + 1 \<le> e * real d" using ed by simp
    then have lo: "of_int f + 1 / real d \<le> e" using dpos by (simp add: field_simps)
    have ne2: "int (i * stop) \<noteq> (f + 1) * int d"
    proof
      assume a: "int (i * stop) = (f + 1) * int d"
      then have "i * stop = nat (f + 1) * d"
        using f0 by (metis nat_int nat_mult_distrib of_nat_0_le_iff add_nonneg_nonneg zero_le_one)
      then show False using False by simp
    qed
    have "e * real d < (of_int f + 1) * real d" using flo(2) dpos by (intro mult_strict_right_mono) simp_all
    then have "real_of_int (int (i * stop)) < real_of_int ((f + 1) * int d)" using ed by simp
    then have "int (i * stop) < (f + 1) * int d" by linarith
    then have "int (i * stop) + 1 \<le> (f + 1) * int d" by linarith
    then have "real_of_int (int (i * stop) + 1) \<le> real_of_int ((f + 1) * int d)" by linarith
    then have "e * real d + 1 \<le> (of_int f + 1) * real d" using ed by simp
    then have hi: "e + 1 / real d \<le> of_int f + 1" using dpos by (simp add: field_simps)
    have "of_int f \<le> y" "y < of_int f + 1" using close delta lo hi by linarith+
    then have "\<lfloor>y\<rfloor> = f" by linarith
    then show ?thesis by (simp add: y_def f_def e_def)
  qed
qed

lemma linspace_double_index:
  "n \<noteq> 1 \<Longrightarrow> np_linspace_int (tot - 1) n = map (double_index tot n) [0..<n]"
  by (simp add: np_linspace_int_def double_index_def Let_def)

lemma linspace_double_index_Suc:
  "n \<noteq> 1 \<Longrightarrow> np_linspace_int (tot - Suc 0) n = map (double_index tot n) [0..<n]"
  using linspace_double_index [of n tot] by simp

lemma double_index_char_nat:
  assumes n: "2 \<le> n" and nt: "n \<le> tot" and small: "tot * n \<le> 2 ^ 50" and i: "i < n"
  shows "double_index tot n i = nat \<lfloor>real i * real (tot - 1) / real (n - 1)\<rfloor>
       \<or> (Suc (double_index tot n i) = nat \<lfloor>real i * real (tot - 1) / real (n - 1)\<rfloor>
           \<and> (n - 1) dvd i * (tot - 1))"
proof (cases "i = n - 1")
  case True
  have "real (n - 1) * real (tot - 1) / real (n - 1) = real (tot - 1)" using n by simp
  then show ?thesis using True by (simp add: double_index_def)
next
  case False
  then have i': "i < n - 1" using i by simp
  have d: "1 \<le> n - 1" using n by simp
  have sd: "n - 1 \<le> tot - 1" using nt by simp
  have "(tot - 1) * (n - 1) \<le> tot * n" by (intro mult_le_mono) simp_all
  then have sm: "(tot - 1) * (n - 1) \<le> 2 ^ 50" using small by simp
  let ?y = "fl64 (real i * fl64 (real (tot - 1) / real (n - 1)))"
  let ?e = "real i * real (tot - 1) / real (n - 1)"
  have y0: "0 \<le> ?y" by (intro fl64_nonneg mult_nonneg_nonneg) simp_all
  then have fy: "0 \<le> \<lfloor>?y\<rfloor>" by simp
  from double_index_char [OF d sd i' sm]
  have "\<lfloor>?y\<rfloor> = \<lfloor>?e\<rfloor> \<or> (\<lfloor>?y\<rfloor> = \<lfloor>?e\<rfloor> - 1 \<and> (n - 1) dvd i * (tot - 1))" .
  then show ?thesis
  proof
    assume "\<lfloor>?y\<rfloor> = \<lfloor>?e\<rfloor>"
    then show ?thesis using False by (simp add: double_index_def)
  next
    assume a: "\<lfloor>?y\<rfloor> = \<lfloor>?e\<rfloor> - 1 \<and> (n - 1) dvd i * (tot - 1)"
    then have "\<lfloor>?e\<rfloor> = \<lfloor>?y\<rfloor> + 1" by simp
    then have "nat \<lfloor>?e\<rfloor> = Suc (nat \<lfloor>?y\<rfloor>)" using fy by (simp add: nat_add_distrib)
    then show ?thesis using a False by (simp add: double_index_def)
  qed
qed

lemma double_index_bound:
  assumes n: "2 \<le> n" and nt: "n \<le> tot" and small: "tot * n \<le> 2 ^ 50" and i: "i < n"
  shows "double_index tot n i < tot"
proof -
  let ?e = "real i * real (tot - 1) / real (n - 1)"
  have tpos: "0 < tot" using n nt by linarith
  have n1: "0 < real (n - 1)" using n by simp
  have "real i \<le> real (n - 1)" using i by simp
  then have "real i * real (tot - 1) \<le> real (n - 1) * real (tot - 1)"
    by (intro mult_right_mono) simp_all
  then have "?e \<le> real (tot - 1)" using n1 by (simp add: pos_divide_le_eq mult.commute)
  then have "\<lfloor>?e\<rfloor> \<le> int (tot - 1)" by (simp add: floor_le_iff)
  then have e: "nat \<lfloor>?e\<rfloor> \<le> tot - 1" by simp
  from double_index_char_nat [OF assms] have "double_index tot n i \<le> nat \<lfloor>?e\<rfloor>" by auto
  then show ?thesis using e tpos by simp
qed

lemma double_index_id:
  assumes n: "2 \<le> n" and small: "n \<le> 2 ^ 50" and i: "i < n"
  shows "double_index n n i = i"
proof (cases "i = n - 1")
  case True
  then show ?thesis by (simp add: double_index_def)
next
  case False
  have one: "fl64 1 = 1" using fl64_nat_exact [of 1] by simp
  have "(2::nat) ^ 50 < 2 ^ 53" by simp
  then have "i < 2 ^ 53" using i small by linarith
  then have ex: "fl64 (real i) = real i" by (rule fl64_nat_exact)
  have "real (n - 1) / real (n - 1) = 1" using n by simp
  then show ?thesis using False by (simp add: double_index_def one ex)
qed

section \<open>The embedding aggregator\<close>

lemma linalg_norm_nonneg: "0 \<le> linalg_norm v"
proof -
  have "0 \<le> sum_list (map (\<lambda>x. x ^ 2) v)" by (induction v) simp_all
  then show ?thesis by (simp add: linalg_norm_def)
qed

lemma list_ex_length_iff:
  "list_ex (\<lambda>e. length e \<noteq> D) (map g frames) \<longleftrightarrow> (\<exists>f \<in> set frames. length (g f) \<noteq> D)"
  by (auto simp: list_ex_iff)

lemma get_average_embedding_uniform:
  assumes ne: "frames \<noteq> []" and len: "\<forall>f \<in> set frames. length (frame_to_embedding cv f) = D"
  shows "get_average_embedding cv frames =
           Inr (map (\<lambda>x. x / (linalg_norm (mean_vector cv frames D) + 1 / 10 ^ 8))
                    (mean_vector cv frames D))"
proof -
  let ?es = "map (frame_to_embedding cv) frames"
  have hd: "length (hd ?es) = D" using ne len by (cases frames) simp_all
  have nex: "\<not> list_ex (\<lambda>e. length e \<noteq> length (hd ?es)) ?es"
    unfolding hd list_ex_length_iff using len by simp
  have avg: "np_mean_axis0 ?es = mean_vector cv frames D"
    unfolding np_mean_axis0_def hd mean_vector_def np_mean_def by (simp add: comp_def)
  have nem: "?es \<noteq> []" using ne by simp
  show ?thesis
    unfolding get_average_embedding_def Let_def avg using nem nex by simp
qed

lemma mean_vector_perm:
  assumes "mset frames' = mset frames"
  shows "mean_vector cv frames' D = mean_vector cv frames D"
proof -
  have l: "length frames' = length frames" using assms by (rule mset_eq_length)
  have s: "\<And>g :: 'a \<Rightarrow> real. sum_list (map g frames') = sum_list (map g frames)"
  proof -
    fix g :: "'a \<Rightarrow> real"
    have "mset (map g frames') = mset (map g frames)" using assms by simp
    then have "sum_mset (mset (map g frames')) = sum_mset (mset (map g frames))" by simp
    then show "sum_list (map g frames') = sum_list (map g frames)" by (simp only: sum_mset_sum_list)
  qed
  show ?thesis unfolding mean_vector_def l by (simp add: s)
qed

section \<open>The endpoint\<close>

lemma authenticate_ok:
  assumes "get_challenge_by_id challenge_id = Some chal"
    and "extract_frames vid 10 = Inr frames"
    and "get_average_embedding cv frames = Inr live"
    and "compute_similarity stored live = Inr sim"
  shows "\<exists>r. authenticate cv (Some stored) challenge_id vid uuid4 = (Inr r, 2 * (length frames - 1) * (if length frames < 2 then 0 else 1))
          \<and> success r
          \<and> authenticated r = (is_live (fst (check_liveness cv frames LIVENESS_THRESHOLD))
               \<and> direction_match (fst (check_challenge_direction cv frames (expected_direction chal) DIRECTION_THRESHOLD))
               \<and> SIMILARITY_THRESHOLD \<le> sim)
          \<and> session_id r = (if authenticated r then Some (''SP-'' @ map upper_char (take 8 uuid4)) else None)
          \<and> message r = (if authenticated r then ''AUTHENTICATED'' else ''REJECTED'')
          \<and> lv_passed (liveness (details r)) = is_live (fst (check_liveness cv frames LIVENESS_THRESHOLD))
          \<and> lv_motion_score (liveness (details r)) = motion_score (fst (check_liveness cv frames LIVENESS_THRESHOLD))
          \<and> lv_reason (liveness (details r)) = reason (fst (check_liveness cv frames LIVENESS_THRESHOLD))
          \<and> dr_passed (direction (details r)) = direction_match (fst (check_challenge_direction cv frames (expected_direction chal) DIRECTION_THRESHOLD))
          \<and> dr_detected (direction (details r)) = detected_direction (fst (check_challenge_direction cv frames (expected_direction chal) DIRECTION_THRESHOLD))
          \<and> dr_expected (direction (details r)) = expected_direction chal
          \<and> dr_confidence (direction (details r)) = confidence (fst (check_challenge_direction cv frames (expected_direction chal) DIRECTION_THRESHOLD))
          \<and> dr_reason (direction (details r)) = dir_reason (fst (check_challenge_direction cv frames (expected_direction chal) DIRECTION_THRESHOLD))
          \<and> sm_passed (similarity (details r)) = (SIMILARITY_THRESHOLD \<le> sim)
          \<and> sm_score (similarity (details r)) = py_round sim 4
          \<and> sm_threshold (similarity (details r)) = SIMILARITY_THRESHOLD"
proof -
  obtain L c1 where L: "check_liveness cv frames LIVENESS_THRESHOLD = (L, c1)"
    by (cases "check_liveness cv frames LIVENESS_THRESHOLD")
  obtain Dr c2 where Dr: "check_challenge_direction cv frames (expected_direction chal) DIRECTION_THRESHOLD = (Dr, c2)"
    by (cases "check_challenge_direction cv frames (expected_direction chal) DIRECTION_THRESHOLD")
  have c1: "c1 = (length frames - 1) * (if length frames < 2 then 0 else 1)"
    using L compute_optical_flow_calls [of cv frames]
    by (auto simp: check_liveness_def Let_def split: if_splits prod.splits)
  have c2: "c2 = (length frames - 1) * (if length frames < 2 then 0 else 1)"
  proof (cases "length frames < 2")
    case True
    then show ?thesis using Dr by (simp add: check_challenge_direction_short)
  next
    case False
    then have "2 \<le> length frames" by simp
    from check_challenge_direction_long [OF this, of cv "expected_direction chal" DIRECTION_THRESHOLD]
    show ?thesis using Dr False by (simp add: Let_def)
  qed
  show ?thesis
    unfolding authenticate_def
    by (simp add: assms L Dr c1 c2 Let_def split: prod.splits)
qed

lemma authenticate_short_calls:
  assumes "length frames < 2" and "extract_frames vid 10 = Inr frames"
  shows "snd (authenticate cv stored_emb challenge_id vid uuid4) = 0"
  using assms unfolding authenticate_def
  by (simp add: check_challenge_direction_short check_liveness_def Let_def
        split: option.splits sum.splits prod.splits)

lemma authenticate_short_rejected:
  assumes "length frames < 2" and "extract_frames vid 10 = Inr frames"
    and "fst (authenticate cv stored_emb challenge_id vid uuid4) = Inr r"
  shows "\<not> authenticated r \<and> session_id r = None
       \<and> liveness (details r) = \<lparr>lv_passed = False, lv_motion_score = 0,
                                  lv_reason = Insufficient_frames_for_motion_analysis\<rparr>
       \<and> \<not> dr_passed (direction (details r))
       \<and> dr_detected (direction (details r)) = ''unknown''
       \<and> dr_confidence (direction (details r)) = 0
       \<and> dr_reason (direction (details r)) = Insufficient_frames_for_direction_analysis"
  using assms unfolding authenticate_def
  by (auto simp: check_challenge_direction_short check_liveness_def Let_def
        split: option.splits sum.splits prod.splits)

lemma authenticate_Inr_cases:
  assumes "fst (authenticate cv stored_emb challenge_id vid uuid4) = Inr r"
  shows "\<exists>stored chal frames live sim.
           stored_emb = Some stored
         \<and> get_challenge_by_id challenge_id = Some chal
         \<and> extract_frames vid 10 = Inr frames
         \<and> get_average_embedding cv frames = Inr live
         \<and> compute_similarity stored live = Inr sim"
  using assms unfolding authenticate_def
  by (auto simp: Let_def split: option.splits sum.splits prod.splits)

lemma authenticate_similarity_fault:
  assumes "get_challenge_by_id challenge_id = Some chal"
    and "extract_frames vid 10 = Inr frames"
    and "get_average_embedding cv frames = Inr live"
    and "compute_similarity stored live = Inl e"
  shows "fst (authenticate cv (Some stored) challenge_id vid uuid4)
           = Inl (HTTPException 500 (Authentication_failed e))"
  unfolding authenticate_def
  by (simp add: assms Let_def split: prod.splits)

lemma authenticate_fault_independent:
  assumes "fst (authenticate cv stored_emb challenge_id vid u1) = Inl e"
  shows "authenticate cv stored_emb challenge_id vid u2 = authenticate cv stored_emb challenge_id vid u1"
  using assms unfolding authenticate_def
  by (auto simp: Let_def split: option.splits sum.splits prod.splits)

section \<open>The endpoint on the concrete video\<close>

lemma demo_session: "''SP-'' @ map upper_char (take 8 demo_uuid) = ''SP-1B9D6BCD''"
  by code_simp

lemma other_session: "''SP-'' @ map upper_char (take 8 other_uuid) = ''SP-6EC0BD7F''"
  by code_simp

lemma demo_challenge: "get_challenge_by_id ''tilt_right'' = Some \<lparr>cid = ''tilt_right'', expected_direction = ''right''\<rparr>"
  by (simp add: get_challenge_by_id_def CHALLENGES_def)

lemma demo_extract: "extract_frames demo_video 10 = Inr [0, 1, 2]"
  by (simp add: extract_frames_def demo_video_def)

lemma mean_magnitude_1x1: "mean_magnitude [[(a, 0)]] = \<bar>a\<bar>"
  by (simp add: mean_magnitude_def np_mean_def)

lemma py_round_2: "py_round 2 3 = 2"
  by (simp add: py_round_def round_half_even_def)

lemma demo_liveness:
  "check_liveness demo_vision [0, 1, 2] LIVENESS_THRESHOLD
     = (\<lparr>is_live = True, motion_score = 2, reason = Live_motion_detected 2 (3 / 2)\<rparr>, 2)"
  by (simp add: check_liveness_def demo3_flows avg_magnitude_def mean_magnitude_1x1 np_mean_def
        LIVENESS_THRESHOLD_def py_round_2)

lemma demo_direction:
  "fst (check_challenge_direction demo_vision [0, 1, 2] ''right'' DIRECTION_THRESHOLD)
     = \<lparr>direction_match = True, detected_direction = ''right'', confidence = 2,
        dir_reason = Challenge_direction_matched ''right'' 2,
        flow_details = Some \<lparr>horizontal = 2, vertical = 0, expansion = 0, rotation = 0\<rparr>\<rparr>"
  by (simp add: check_challenge_direction_long demo3_motion detect_right DIRECTION_THRESHOLD_def
        py_round_2 round_info_def Let_def) (simp add: py_round_def round_half_even_def)

lemma demo_embedding:
  "get_average_embedding demo_vision [0, 1, 2] = Inr [100000000 / 100000001, 0]"
  by (simp add: get_average_embedding_def demo_vision_def np_mean_axis0_def np_mean_def
        linalg_norm_def numeral_2_eq_2)

lemma cosine_demo: "0 < c \<Longrightarrow> cosine_similarity [3 / 5, 4 / 5] [c, 0] = 3 / 5"
proof -
  assume c: "0 < c"
  have n1: "linalg_norm [3 / 5, 4 / 5] = 1"
    by (simp add: linalg_norm_def power2_eq_square)
  have n2: "linalg_norm [c, 0] = c" using c by (simp add: linalg_norm_def)
  show ?thesis using c by (simp add: cosine_similarity_def normalize_def n1 n2)
qed

lemma cosine_orthogonal: "0 < c \<Longrightarrow> cosine_similarity [0, 1] [c, 0] = 0"
proof -
  assume c: "0 < c"
  have n1: "linalg_norm [0, 1] = 1" by (simp add: linalg_norm_def)
  have n2: "linalg_norm [c, 0] = c" using c by (simp add: linalg_norm_def)
  show ?thesis using c by (simp add: cosine_similarity_def normalize_def n1 n2)
qed

lemma demo_similarity:
  "compute_similarity demo_stored [100000000 / 100000001, 0] = Inr (3 / 5)"
  by (simp add: compute_similarity_def demo_stored_def cosine_demo)

lemma orthogonal_similarity:
  "compute_similarity [0, 1] [100000000 / 100000001, 0] = Inr 0"
  by (simp add: compute_similarity_def cosine_orthogonal)

lemma demo_run:
  "\<exists>r. authenticate demo_vision (Some demo_stored) ''tilt_right'' demo_video u = (Inr r, 4)
      \<and> authenticated r \<and> session_id r = Some (''SP-'' @ map upper_char (take 8 u))
      \<and> lv_passed (liveness (details r)) \<and> dr_passed (direction (details r))
      \<and> sm_passed (similarity (details r))"
  using authenticate_ok [OF demo_challenge demo_extract demo_embedding demo_similarity, of u]
  by (auto simp: demo_liveness demo_direction SIMILARITY_THRESHOLD_def)

section \<open>The claims\<close>

text \<open>
  Claim C1. Whenever the endpoint returns a response, \<open>authenticated\<close> holds iff
  the liveness, direction and similarity verdicts all passed, and the response carries a
  session identifier iff \<open>authenticated\<close> holds. The three verdicts in the response are
  those of \<open>check_liveness\<close>, \<open>check_challenge_direction\<close> and the threshold test
  on the extracted frames.
\<close>

theorem authenticate_decision_is_conjunction:
  assumes "fst (authenticate cv stored_emb challenge_id vid uuid4) = Inr r"
  shows "(authenticated r \<longleftrightarrow>
            lv_passed (liveness (details r)) \<and> dr_passed (direction (details r))
            \<and> sm_passed (similarity (details r)))
       \<and> (session_id r \<noteq> None \<longleftrightarrow> authenticated r)
       \<and> (\<exists>stored chal frames live sim.
             stored_emb = Some stored
           \<and> get_challenge_by_id challenge_id = Some chal
           \<and> extract_frames vid 10 = Inr frames
           \<and> get_average_embedding cv frames = Inr live
           \<and> compute_similarity stored live = Inr sim
           \<and> lv_passed (liveness (details r))
               = is_live (fst (check_liveness cv frames LIVENESS_THRESHOLD))
           \<and> dr_passed (direction (details r))
               = direction_match (fst (check_challenge_direction cv frames
                                         (expected_direction chal) DIRECTION_THRESHOLD))
           \<and> sm_passed (similarity (details r)) = (SIMILARITY_THRESHOLD \<le> sim))"
proof -
  from authenticate_Inr_cases [OF assms] obtain stored chal frames live sim where
    h: "stored_emb = Some stored" "get_challenge_by_id challenge_id = Some chal"
       "extract_frames vid 10 = Inr frames" "get_average_embedding cv frames = Inr live"
       "compute_similarity stored live = Inr sim"
    by blast
  from authenticate_ok [OF h(2-5), of uuid4] assms h(1)
  have r: "authenticated r = (is_live (fst (check_liveness cv frames LIVENESS_THRESHOLD))
               \<and> direction_match (fst (check_challenge_direction cv frames (expected_direction chal) DIRECTION_THRESHOLD))
               \<and> SIMILARITY_THRESHOLD \<le> sim)"
     "session_id r = (if authenticated r then Some (''SP-'' @ map upper_char (take 8 uuid4)) else None)"
     "lv_passed (liveness (details r)) = is_live (fst (check_liveness cv frames LIVENESS_THRESHOLD))"
     "dr_passed (direction (details r)) = direction_match (fst (check_challenge_direction cv frames (expected_direction chal) DIRECTION_THRESHOLD))"
     "sm_passed (similarity (details r)) = (SIMILARITY_THRESHOLD \<le> sim)"
    by auto
  have a: "authenticated r \<longleftrightarrow>
            lv_passed (liveness (details r)) \<and> dr_passed (direction (details r))
            \<and> sm_passed (similarity (details r))"
    using r(1,3,4,5) by simp
  have b: "session_id r \<noteq> None \<longleftrightarrow> authenticated r" using r(2) by simp
  show ?thesis using a b h r(3,4,5) by blast
qed

text \<open>
  C1 on the three-frame video moving right with a matching stored vector: the attempt
  is accepted and carries the session identifier cut from the UUID.
\<close>

theorem authenticate_decision_is_conjunction_witness:
  "map_sum id authenticated (fst (authenticate demo_vision (Some demo_stored) ''tilt_right'' demo_video demo_uuid))
     = Inr True
   \<and> map_sum id session_id (fst (authenticate demo_vision (Some demo_stored) ''tilt_right'' demo_video demo_uuid))
     = Inr (Some ''SP-1B9D6BCD'')"
proof -
  from demo_run [of demo_uuid] obtain r where
    r: "authenticate demo_vision (Some demo_stored) ''tilt_right'' demo_video demo_uuid = (Inr r, 4)"
       "session_id r = Some ''SP-1B9D6BCD''"
       "lv_passed (liveness (details r))" "dr_passed (direction (details r))"
       "sm_passed (similarity (details r))"
    unfolding demo_session by blast
  have h: "fst (authenticate demo_vision (Some demo_stored) ''tilt_right'' demo_video demo_uuid) = Inr r"
    using r(1) by simp
  from authenticate_decision_is_conjunction [OF h] r(3-5) have "authenticated r" by blast
  then show ?thesis using h r(2) by simp
qed

text \<open>
  Claim C2. For a sequence of at least two frames the direction verdict passes iff the
  maximal candidate score exceeds the threshold strictly: with the expected direction
  detected it is a match, with another direction detected it still passes under the
  leniency reason, and it fails exactly when the score is at most the threshold.
\<close>

theorem direction_match_iff_confidence_above_threshold: 
  assumes "2 \<le> length frames"
  shows "(let r = fst (check_challenge_direction cv frames expected t);
              d = fst (detect (motion_of cv frames));
              c = Max (snd ` set (scores (motion_of cv frames)))
          in (direction_match r \<longleftrightarrow> t < c)
           \<and> (d = expected \<and> t < c \<longrightarrow> dir_reason r = Challenge_direction_matched d c)
           \<and> (d \<noteq> expected \<and> t < c \<longrightarrow>
                 direction_match r \<and> dir_reason r = Accepted_with_MVP_leniency d c expected)
           \<and> (c \<le> t \<longrightarrow>
                 \<not> direction_match r \<and> dir_reason r = Direction_mismatch_or_weak_motion d c expected))"
  using assms
  by (simp add: check_challenge_direction_long detect_conf_Max [symmetric] Let_def)

text \<open>
  C2 on the leniency scenario: horizontal score \<open>0.5\<close>, threshold \<open>0.3\<close>,
  rotation expected; the verdict passes and the detected direction is right.
\<close>

theorem direction_match_iff_confidence_above_threshold_witness:
  "2 \<le> length [0, 1 / 4 :: real]
   \<and> direction_match (fst (check_challenge_direction demo_vision [0, 1 / 4] ''rotation'' (3 / 10)))
   \<and> detected_direction (fst (check_challenge_direction demo_vision [0, 1 / 4] ''rotation'' (3 / 10))) = ''right''
   \<and> dir_reason (fst (check_challenge_direction demo_vision [0, 1 / 4] ''rotation'' (3 / 10)))
       = Accepted_with_MVP_leniency ''right'' (1 / 2) ''rotation''"
proof -
  have h: "2 \<le> length [0, 1 / 4 :: real]" by simp
  have d: "detect (motion_of demo_vision [0, 1 / 4]) = (''right'', 1 / 2)"
    by (simp add: demoC_motion detect_right)
  have m: "Max (snd ` set (scores (motion_of demo_vision [0, 1 / 4]))) = 1 / 2"
    using detect_conf_Max [of "motion_of demo_vision [0, 1 / 4]"] d by simp
  have dd: "detected_direction (fst (check_challenge_direction demo_vision [0, 1 / 4] ''rotation'' (3 / 10))) = ''right''"
    by (simp add: check_challenge_direction_long d Let_def)
  show ?thesis
    using h dd direction_match_iff_confidence_above_threshold [OF h, of demo_vision "''rotation''" "3 / 10"] by (simp add: d m Let_def)
qed

text \<open>
  Claim C3 fails on the order of ties. On a flow for which the five scores are
  rotation 0, zoom_in 0, zoom_out \<open>390625 / 524288\<close>, left \<open>390625 / 524288\<close>,
  right 0, the classifier answers \<open>zoom_out\<close>, which comes before \<open>left\<close> in the
  \<open>scores\<close> dict; the order of the specification would answer \<open>left\<close>.
\<close>

theorem detected_direction_tie_order_counterexample:
  "scores (motion_of tie_vision [0, 1])
     = [(''rotation'', 0), (''zoom_in'', 0), (''zoom_out'', 390625 / 524288),
        (''left'', 390625 / 524288), (''right'', 0)]
   \<and> detected_direction (fst (check_challenge_direction tie_vision [0, 1] ''left'' (3 / 10))) = ''zoom_out''
   \<and> fst (spec_detect (motion_of tie_vision [0, 1])) = ''left''
   \<and> detected_direction (fst (check_challenge_direction tie_vision [0, 1] ''left'' (3 / 10)))
       \<noteq> fst (spec_detect (motion_of tie_vision [0, 1]))"
  unfolding tie_scores
  by (simp add: check_challenge_direction_long tie_motion tie_detect tie_spec_detect Let_def)

text \<open>
  Claim C3, amended. For a sequence of at least two frames the detected direction is the
  first of the candidates rotation \<open>= \<bar>rotation\<bar>\<close>, zoom_in \<open>= max(expansion, 0)\<close>,
  zoom_out \<open>= max(-expansion, 0)\<close>, left \<open>= max(-horizontal, 0)\<close>,
  right \<open>= max(horizontal, 0)\<close>, taken in this order, whose score is maximal; so
  \<open>left\<close> is answered only when it beats \<open>zoom_out\<close> strictly. The confidence
  of the classifier is that maximal score, and the verdict returns it rounded to three
  decimals.
\<close>

theorem detected_direction_first_maximal_score:
  assumes "2 \<le> length frames"
  shows "(let r = fst (check_challenge_direction cv frames expected t);
              info = motion_of cv frames;
              cands = [(''rotation'', \<bar>rotation info\<bar>),
                       (''zoom_in'', max (expansion info) 0),
                       (''zoom_out'', max (- expansion info) 0),
                       (''left'', max (- horizontal info) 0),
                       (''right'', max (horizontal info) 0)]
          in (\<exists>i < 5. fst (cands ! i) = detected_direction r
                 \<and> snd (cands ! i) = Max (snd ` set cands)
                 \<and> (\<forall>j < i. snd (cands ! j) < snd (cands ! i))
                 \<and> confidence r = py_round (snd (cands ! i)) 3)
             \<and> (detected_direction r = ''left'' \<longrightarrow>
                   max (- expansion info) 0 < max (- horizontal info) 0)
             \<and> (detected_direction r = ''zoom_out'' \<longrightarrow>
                   max (- horizontal info) 0 \<le> max (- expansion info) 0))"
proof -
  let ?info = "motion_of cv frames"
  let ?r = "fst (check_challenge_direction cv frames expected t)"
  have sc: "[(''rotation'', \<bar>rotation ?info\<bar>),
             (''zoom_in'', max (expansion ?info) 0),
             (''zoom_out'', max (- expansion ?info) 0),
             (''left'', max (- horizontal ?info) 0),
             (''right'', max (horizontal ?info) 0)] = scores ?info"
    by (simp add: scores_def)
  have dd: "detected_direction ?r = fst (detect ?info)"
    and cf: "confidence ?r = py_round (snd (detect ?info)) 3"
    using assms by (simp_all add: check_challenge_direction_long Let_def)
  from detect_first_max [of ?info] obtain i where
    i: "i < 5" "scores ?info ! i = detect ?info"
       "\<forall>j < i. snd (scores ?info ! j) < snd (detect ?info)"
    by blast
  have a: "\<exists>i < 5. fst (scores ?info ! i) = detected_direction ?r
                 \<and> snd (scores ?info ! i) = Max (snd ` set (scores ?info))
                 \<and> (\<forall>j < i. snd (scores ?info ! j) < snd (scores ?info ! i))
                 \<and> confidence ?r = py_round (snd (scores ?info ! i)) 3"
    using i dd cf detect_conf_Max [of ?info] by (intro exI [of _ i]) simp
  have b: "detected_direction ?r = ''left'' \<longrightarrow>
             max (- expansion ?info) 0 < max (- horizontal ?info) 0"
    using detect_left_strict [of ?info] dd by simp
  have c: "detected_direction ?r = ''zoom_out'' \<longrightarrow>
             max (- horizontal ?info) 0 \<le> max (- expansion ?info) 0"
    using detect_zoom_out_weak [of ?info] dd by simp
  show ?thesis unfolding Let_def sc using a b c by blast
qed

text \<open>
  The amended C3 on the tie of \<open>zoom_out\<close> and \<open>left\<close>: the answer is
  \<open>zoom_out\<close>.
\<close>

theorem detected_direction_first_maximal_score_witness:
  "2 \<le> length [0, 1 :: real]
   \<and> detected_direction (fst (check_challenge_direction tie_vision [0, 1] ''left'' (3 / 10))) = ''zoom_out''
   \<and> max (- horizontal (motion_of tie_vision [0, 1])) 0 \<le> max (- expansion (motion_of tie_vision [0, 1])) 0
   \<and> max (- horizontal (motion_of tie_vision [0, 1])) 0 = 390625 / 524288
   \<and> max (- expansion (motion_of tie_vision [0, 1])) 0 = 390625 / 524288"
proof -
  have h: "2 \<le> length [0, 1 :: real]" by simp
  have d: "detected_direction (fst (check_challenge_direction tie_vision [0, 1] ''left'' (3 / 10))) = ''zoom_out''"
    by (simp add: check_challenge_direction_long tie_motion tie_detect Let_def)
  from detected_direction_first_maximal_score [OF h, of tie_vision "''left''" "3 / 10"] d
  have "max (- horizontal (motion_of tie_vision [0, 1])) 0 \<le> max (- expansion (motion_of tie_vision [0, 1])) 0"
    unfolding Let_def by blast
  then show ?thesis using h d by (simp add: tie_motion)
qed

text \<open>
  Claim C4. When the stored vector and the fresh vector differ in length, the similarity
  computation raises and the endpoint fails with status 500 carrying that error; no
  response with a similarity verdict is returned. The error is the dimension mismatch of
  scikit-learn when both vectors have components, and its complaint about a row without
  features when one of them is empty.
\<close>

theorem dimension_mismatch_is_fault:
  assumes "get_challenge_by_id challenge_id = Some chal"
    and "extract_frames vid 10 = Inr frames"
    and "get_average_embedding cv frames = Inr live"
    and "length stored \<noteq> length live"
  shows "compute_similarity stored live
           = Inl (ValueError (if stored = [] \<or> live = [] then Zero_features
                              else Incompatible_dimension (length stored) (length live)))
       \<and> fst (authenticate cv (Some stored) challenge_id vid uuid4)
           = Inl (HTTPException 500 (Authentication_failed
                    (ValueError (if stored = [] \<or> live = [] then Zero_features
                                 else Incompatible_dimension (length stored) (length live)))))"
proof -
  have cs: "compute_similarity stored live
           = Inl (ValueError (if stored = [] \<or> live = [] then Zero_features
                              else Incompatible_dimension (length stored) (length live)))"
    using assms(4) by (simp add: compute_similarity_def)
  show ?thesis using cs authenticate_similarity_fault [OF assms(1-3) cs] by simp
qed

text \<open>
  C4 with a stored vector of length 3 against a fresh vector of length 2.
\<close>

theorem dimension_mismatch_is_fault_witness:
  "length [1, 0, 0 :: real] \<noteq> length [100000000 / 100000001, 0 :: real]
   \<and> fst (authenticate demo_vision (Some [1, 0, 0]) ''tilt_right'' demo_video demo_uuid)
       = Inl (HTTPException 500 (Authentication_failed (ValueError (Incompatible_dimension 3 2))))"
proof -
  have h: "length [1, 0, 0 :: real] \<noteq> length [100000000 / 100000001, 0 :: real]" by simp
  show ?thesis
    using h dimension_mismatch_is_fault [OF demo_challenge demo_extract demo_embedding h, of demo_uuid] by simp
qed

text \<open>
  Claim C5. For fewer than two frames \<open>check_liveness\<close> returns the negative
  verdict with score 0 and the insufficient-frames reason, \<open>check_challenge_direction\<close>
  returns no match, direction \<open>unknown\<close> and confidence 0, and neither calls the
  flow primitive: both call counts are 0. An attempt whose extracted frames are fewer
  than two makes no flow call either, and any response it returns is a rejection carrying
  these two verdicts.
\<close>

theorem insufficient_frames_negative_without_flow:
  assumes "length frames < 2"
  shows "check_liveness cv frames min_motion =
           (\<lparr>is_live = False, motion_score = 0,
             reason = Insufficient_frames_for_motion_analysis\<rparr>, 0)
       \<and> check_challenge_direction cv frames expected t =
           (\<lparr>direction_match = False, detected_direction = ''unknown'', confidence = 0,
             dir_reason = Insufficient_frames_for_direction_analysis, flow_details = None\<rparr>, 0)
       \<and> (\<forall>vid stored_emb challenge_id uuid4.
             extract_frames vid 10 = Inr frames \<longrightarrow>
               snd (authenticate cv stored_emb challenge_id vid uuid4) = 0
             \<and> (\<forall>r. fst (authenticate cv stored_emb challenge_id vid uuid4) = Inr r \<longrightarrow>
                    \<not> authenticated r
                  \<and> liveness (details r) =
                        \<lparr>lv_passed = False, lv_motion_score = 0,
                         lv_reason = Insufficient_frames_for_motion_analysis\<rparr>
                  \<and> \<not> dr_passed (direction (details r))
                  \<and> dr_detected (direction (details r)) = ''unknown''
                  \<and> dr_confidence (direction (details r)) = 0))"
proof (intro conjI allI impI)
  show "check_liveness cv frames min_motion =
           (\<lparr>is_live = False, motion_score = 0,
             reason = Insufficient_frames_for_motion_analysis\<rparr>, 0)"
    using assms by (simp add: check_liveness_def)
next
  show "check_challenge_direction cv frames expected t =
           (\<lparr>direction_match = False, detected_direction = ''unknown'', confidence = 0,
             dir_reason = Insufficient_frames_for_direction_analysis, flow_details = None\<rparr>, 0)"
    using assms by (rule check_challenge_direction_short)
next
  fix vid :: "'a video" and stored_emb challenge_id uuid4
  assume "extract_frames vid 10 = Inr frames"
  then show "snd (authenticate cv stored_emb challenge_id vid uuid4) = 0"
    using assms by (rule authenticate_short_calls [rotated])
next
  fix vid :: "'a video" and stored_emb challenge_id uuid4 r
  assume e: "extract_frames vid 10 = Inr frames"
    and r: "fst (authenticate cv stored_emb challenge_id vid uuid4) = Inr r"
  from authenticate_short_rejected [OF assms e r]
  show "\<not> authenticated r" 
    and "liveness (details r) =
                        \<lparr>lv_passed = False, lv_motion_score = 0,
                         lv_reason = Insufficient_frames_for_motion_analysis\<rparr>"
    and "\<not> dr_passed (direction (details r))"
    and "dr_detected (direction (details r)) = ''unknown''"
    and "dr_confidence (direction (details r)) = 0"
    by simp_all
qed

text \<open>
  C5 on a single frame.
\<close>

theorem insufficient_frames_negative_without_flow_witness:
  "length [0 :: real] < 2
   \<and> check_liveness demo_vision [0] LIVENESS_THRESHOLD
       = (\<lparr>is_live = False, motion_score = 0, reason = Insufficient_frames_for_motion_analysis\<rparr>, 0)
   \<and> check_challenge_direction demo_vision [0] ''right'' DIRECTION_THRESHOLD
       = (\<lparr>direction_match = False, detected_direction = ''unknown'', confidence = 0,
           dir_reason = Insufficient_frames_for_direction_analysis, flow_details = None\<rparr>, 0)
   \<and> extract_frames single_frame_video 10 = Inr [0]
   \<and> snd (authenticate demo_vision (Some demo_stored) ''tilt_right'' single_frame_video demo_uuid) = 0"
proof -
  have h: "length [0 :: real] < 2" by simp
  have e: "extract_frames single_frame_video 10 = Inr [0]"
    by (simp add: extract_frames_def single_frame_video_def)
  note c = insufficient_frames_negative_without_flow [OF h, of demo_vision LIVENESS_THRESHOLD "''right''" DIRECTION_THRESHOLD]
  from c e have "snd (authenticate demo_vision (Some demo_stored) ''tilt_right''
                        single_frame_video demo_uuid) = 0" by blast
  with h e c show ?thesis by blast
qed

text \<open>
  Claim C6 fails on the accepted branch: the same frames, challenge and stored vector
  with two draws of the UUID give two different session identifiers, hence two different
  results.
\<close>

theorem authenticate_session_id_varies_counterexample:
  "map_sum id session_id (fst (authenticate demo_vision (Some demo_stored) ''tilt_right'' demo_video demo_uuid))
     = Inr (Some ''SP-1B9D6BCD'')
   \<and> map_sum id session_id (fst (authenticate demo_vision (Some demo_stored) ''tilt_right'' demo_video other_uuid))
     = Inr (Some ''SP-6EC0BD7F'')
   \<and> authenticate demo_vision (Some demo_stored) ''tilt_right'' demo_video demo_uuid
     \<noteq> authenticate demo_vision (Some demo_stored) ''tilt_right'' demo_video other_uuid"
proof -
  from demo_run [of demo_uuid] obtain r1 where
    r1: "authenticate demo_vision (Some demo_stored) ''tilt_right'' demo_video demo_uuid = (Inr r1, 4)"
        "session_id r1 = Some ''SP-1B9D6BCD''"
    unfolding demo_session by blast
  from demo_run [of other_uuid] obtain r2 where
    r2: "authenticate demo_vision (Some demo_stored) ''tilt_right'' demo_video other_uuid = (Inr r2, 4)"
        "session_id r2 = Some ''SP-6EC0BD7F''"
    unfolding other_session by blast
  have "r1 \<noteq> r2" using r1(2) r2(2) by auto
  then show ?thesis using r1 r2 by simp
qed

text \<open>
  Claim C6, amended. Two runs on the same frames, challenge and stored vector agree in
  every field other than \<open>session_id\<close> and in the number of flow calls; when the
  attempt is not accepted (a rejection or a fault) the two results are equal.
\<close>

theorem authenticate_deterministic_up_to_session_id:
  "map_sum (\<lambda>e. e) (\<lambda>r. r\<lparr>session_id := None\<rparr>) (fst (authenticate cv stored_emb challenge_id vid u1))
     = map_sum (\<lambda>e. e) (\<lambda>r. r\<lparr>session_id := None\<rparr>) (fst (authenticate cv stored_emb challenge_id vid u2))
   \<and> snd (authenticate cv stored_emb challenge_id vid u1) = snd (authenticate cv stored_emb challenge_id vid u2)
   \<and> ((\<forall>r. fst (authenticate cv stored_emb challenge_id vid u1) = Inr r \<longrightarrow> \<not> authenticated r)
        \<longrightarrow> authenticate cv stored_emb challenge_id vid u2 = authenticate cv stored_emb challenge_id vid u1)"
  unfolding authenticate_def
  by (auto simp: Let_def split: option.splits sum.splits prod.splits)

text \<open>
  The amended C6 on a rejected attempt (stored vector orthogonal to the fresh one).
\<close>

theorem authenticate_deterministic_up_to_session_id_witness:
  "authenticate demo_vision (Some [0, 1]) ''tilt_right'' demo_video other_uuid
     = authenticate demo_vision (Some [0, 1]) ''tilt_right'' demo_video demo_uuid
   \<and> map_sum id authenticated
        (fst (authenticate demo_vision (Some [0, 1]) ''tilt_right'' demo_video demo_uuid)) = Inr False"
proof -
  from authenticate_ok [OF demo_challenge demo_extract demo_embedding orthogonal_similarity, of demo_uuid]
  obtain r where r: "fst (authenticate demo_vision (Some [0, 1]) ''tilt_right'' demo_video demo_uuid) = Inr r"
    "\<not> authenticated r"
    by (auto simp: SIMILARITY_THRESHOLD_def)
  have h: "\<forall>r. fst (authenticate demo_vision (Some [0, 1]) ''tilt_right'' demo_video demo_uuid) = Inr r
             \<longrightarrow> \<not> authenticated r"
    using r by simp
  from authenticate_deterministic_up_to_session_id [of demo_vision "Some [0, 1]" "''tilt_right''" demo_video demo_uuid other_uuid] h
  have "authenticate demo_vision (Some [0, 1]) ''tilt_right'' demo_video other_uuid
     = authenticate demo_vision (Some [0, 1]) ''tilt_right'' demo_video demo_uuid" by blast
  then show ?thesis using r by simp
qed

text \<open>
  Claim C7. For a stored vector and a fresh vector of one length (with at least one
  component) the similarity verdict passes iff the cosine similarity is at least
  \<open>0.60\<close>, the boundary included.
\<close>

theorem similarity_threshold_inclusive:
  assumes "get_challenge_by_id challenge_id = Some chal"
    and "extract_frames vid 10 = Inr frames"
    and "get_average_embedding cv frames = Inr live"
    and "length stored = length live" and "stored \<noteq> []"
  shows "compute_similarity stored live = Inr (cosine_similarity stored live)
       \<and> (\<exists>r. fst (authenticate cv (Some stored) challenge_id vid uuid4) = Inr r
              \<and> (sm_passed (similarity (details r)) \<longleftrightarrow> 60 / 100 \<le> cosine_similarity stored live)
              \<and> sm_threshold (similarity (details r)) = 60 / 100)"
proof -
  have cs: "compute_similarity stored live = Inr (cosine_similarity stored live)"
    using assms(4,5) by (auto simp: compute_similarity_def)
  from authenticate_ok [OF assms(1-3) cs, of uuid4]
  show ?thesis using cs by (auto simp: SIMILARITY_THRESHOLD_def)
qed

text \<open>
  C7 at the boundary: the cosine similarity is exactly \<open>0.60\<close> and the verdict
  passes.
\<close>

theorem similarity_threshold_inclusive_witness:
  "cosine_similarity demo_stored [100000000 / 100000001, 0] = 60 / 100
   \<and> map_sum id (\<lambda>r. sm_passed (similarity (details r)))
        (fst (authenticate demo_vision (Some demo_stored) ''tilt_right'' demo_video demo_uuid))
       = Inr True"
proof -
  have l: "length demo_stored = length [100000000 / 100000001, 0 :: real]"
    by (simp add: demo_stored_def)
  have ne: "demo_stored \<noteq> []" by (simp add: demo_stored_def)
  have c: "cosine_similarity demo_stored [100000000 / 100000001, 0] = 60 / 100"
    by (simp add: demo_stored_def cosine_demo)
  from similarity_threshold_inclusive [OF demo_challenge demo_extract demo_embedding l ne, of demo_uuid]
  show ?thesis using c by auto
qed

text \<open>
  Claim C8. For a non-empty list of frames whose embeddings have one length \<open>D\<close>,
  the aggregator returns the arithmetic mean vector divided by its norm plus
  \<open>10\<^sup>-\<^sup>8\<close>; the divisor is positive, so the all-zero mean is covered; and
  any permutation of the frames gives the same vector.
\<close>

theorem average_embedding_is_normalized_mean:
  assumes "frames \<noteq> []" and "\<forall>f \<in> set frames. length (frame_to_embedding cv f) = D"
  shows "get_average_embedding cv frames =
           Inr (map (\<lambda>x. x / (linalg_norm (mean_vector cv frames D) + 1 / 10 ^ 8))
                    (mean_vector cv frames D))
       \<and> 0 < linalg_norm (mean_vector cv frames D) + 1 / 10 ^ 8
       \<and> (\<forall>frames'. mset frames' = mset frames \<longrightarrow>
             get_average_embedding cv frames' = get_average_embedding cv frames)"
proof (intro conjI allI impI)
  show "get_average_embedding cv frames =
           Inr (map (\<lambda>x. x / (linalg_norm (mean_vector cv frames D) + 1 / 10 ^ 8))
                    (mean_vector cv frames D))"
    using assms by (rule get_average_embedding_uniform)
next
  have "0 \<le> linalg_norm (mean_vector cv frames D)" by (rule linalg_norm_nonneg)
  then show "0 < linalg_norm (mean_vector cv frames D) + 1 / 10 ^ 8" by simp
next
  fix frames' :: "'a list"
  assume p: "mset frames' = mset frames"
  then have st: "set frames' = set frames" by (rule mset_eq_setD)
  have ne': "frames' \<noteq> []" using assms(1) p by auto
  have len': "\<forall>f \<in> set frames'. length (frame_to_embedding cv f) = D" using assms(2) st by simp
  show "get_average_embedding cv frames' = get_average_embedding cv frames"
    unfolding get_average_embedding_uniform [OF ne' len']
      get_average_embedding_uniform [OF assms] mean_vector_perm [OF p] ..
qed

text \<open>
  C8 on two frames with different embeddings, and on their swap.
\<close>

theorem average_embedding_is_normalized_mean_witness:
  "get_average_embedding ramp_vision [0, 2]
     = Inr (map (\<lambda>x. x / (linalg_norm [1, 1] + 1 / 10 ^ 8)) [1, 1])
   \<and> get_average_embedding ramp_vision [2, 0] = get_average_embedding ramp_vision [0, 2]"
proof -
  have ne: "[0, 2 :: real] \<noteq> []" by simp
  have len: "\<forall>f \<in> set [0, 2 :: real]. length (frame_to_embedding ramp_vision f) = 2"
    by (simp add: ramp_vision_def)
  have mv: "mean_vector ramp_vision [0, 2] 2 = [1, 1]"
    by (simp add: mean_vector_def ramp_vision_def numeral_2_eq_2)
  have p: "mset [2, 0 :: real] = mset [0, 2]" by simp
  from average_embedding_is_normalized_mean [OF ne len] p show ?thesis unfolding mv by blast
qed

text \<open>
  Claim C9 fails on the rounding: with 12 frames and 10 requested the code reads the
  frames at the truncated positions 0, 1, 2, 3, 4, 6, 7, 8, 9, 11, while rounding gives
  0, 1, 2, 4, 5, 6, 7, 9, 10, 11 (no position is halfway between two integers, so the
  choice of rounding mode does not matter).
\<close>

theorem extract_frames_truncates_counterexample:
  "extract_frames video12 10 = Inr [0, 1, 2, 3, 4, 6, 7, 8, 9, 11]
   \<and> map ((!) (stream video12)) (spec_indices (length (stream video12)) 10) = [0, 1, 2, 4, 5, 6, 7, 9, 10, 11]
   \<and> extract_frames video12 10 \<noteq> Inr (map ((!) (stream video12)) (spec_indices (length (stream video12)) 10))"
proof -
  have len: "length (stream video12) = 12" by (simp add: video12_def)
  have sp: "map ((!) (stream video12)) (spec_indices (length (stream video12)) 10)
              = [0, 1, 2, 4, 5, 6, 7, 9, 10, 11]"
    unfolding len spec_12_10 by (simp add: video12_def)
  show ?thesis unfolding sp extract12 by simp
qed

text \<open>
  Claim C9, amended. With no recoverable frame the extraction fails with a ValueError.
  When the container reports no frame count and there are at most \<open>n\<close> frames, all of
  them are returned. When there are at least \<open>n \<ge> 2\<close> frames (the reported count
  absent or exact, and \<open>total \<sqdot> n \<le> 2\<^sup>5\<^sup>0\<close>), the frames returned are those at
  the floors of the double products \<open>i \<sqdot> step\<close>, \<open>step\<close> the double quotient
  \<open>(total - 1) / (n - 1)\<close>, for \<open>i = 0, \<dots>, n - 2\<close>, followed by the last frame.
  Each of these indices is \<open>\<lfloor>i (total - 1) / (n - 1)\<rfloor>\<close>, or one less where
  \<open>i (total - 1) / (n - 1)\<close> is a whole number.
\<close>

theorem extract_frames_sampling:
  "(stream v1 = [] \<longrightarrow>
      extract_frames v1 n1 = Inl (ValueError (if isOpened v1 then No_frames_could_be_extracted_from_video
                                             else Could_not_open_video_file)))
   \<and> (isOpened v2 \<and> frame_count v2 \<le> 0 \<and> stream v2 \<noteq> [] \<and> length (stream v2) \<le> n2 \<longrightarrow>
      extract_frames v2 n2 = Inr (stream v2))
   \<and> (isOpened v3 \<and> (frame_count v3 \<le> 0 \<or> frame_count v3 = int (length (stream v3)))
        \<and> 2 \<le> n3 \<and> n3 \<le> length (stream v3) \<and> length (stream v3) * n3 \<le> 2 ^ 50 \<longrightarrow>
      extract_frames v3 n3
        = Inr (map (\<lambda>i. stream v3 ! (if i = n3 - 1 then length (stream v3) - 1
                                      else nat \<lfloor>fl64 (real i * fl64 (real (length (stream v3) - 1)
                                                                        / real (n3 - 1)))\<rfloor>))
                   [0..<n3])
      \<and> (\<forall>i < n3.
            (if i = n3 - 1 then length (stream v3) - 1
             else nat \<lfloor>fl64 (real i * fl64 (real (length (stream v3) - 1) / real (n3 - 1)))\<rfloor>)
              = nat \<lfloor>real i * real (length (stream v3) - 1) / real (n3 - 1)\<rfloor>
          \<or> (Suc (if i = n3 - 1 then length (stream v3) - 1
                   else nat \<lfloor>fl64 (real i * fl64 (real (length (stream v3) - 1) / real (n3 - 1)))\<rfloor>)
                = nat \<lfloor>real i * real (length (stream v3) - 1) / real (n3 - 1)\<rfloor>
              \<and> (n3 - 1) dvd i * (length (stream v3) - 1))))"
proof (intro conjI impI)
  assume "stream v1 = []"
  then show "extract_frames v1 n1 = Inl (ValueError (if isOpened v1 then No_frames_could_be_extracted_from_video
                                             else Could_not_open_video_file))"
    by (simp add: extract_frames_def Let_def concat_map_read_none)
next
  assume "isOpened v2 \<and> frame_count v2 \<le> 0 \<and> stream v2 \<noteq> [] \<and> length (stream v2) \<le> n2"
  then show "extract_frames v2 n2 = Inr (stream v2)"
    by (simp add: extract_frames_def Let_def)
next
  let ?T = "length (stream v3)"
  assume a: "isOpened v3 \<and> (frame_count v3 \<le> 0 \<or> frame_count v3 = int ?T) \<and> 2 \<le> n3 \<and> n3 \<le> ?T
             \<and> ?T * n3 \<le> 2 ^ 50"
  then have n: "2 \<le> n3" and T: "n3 \<le> ?T" and op: "isOpened v3" and small: "?T * n3 \<le> 2 ^ 50"
    by simp_all
  have n1: "n3 \<noteq> 1" using n by simp
  have Tpos: "0 < ?T" using n T by linarith
  have ne: "stream v3 \<noteq> []" using Tpos by auto
  have rng: "\<forall>idx \<in> set (map (double_index ?T n3) [0..<n3]). idx < ?T"
    using double_index_bound [OF n T small] by auto
  have unf: "map (\<lambda>i. stream v3 ! (if i = n3 - 1 then ?T - 1
                 else nat \<lfloor>fl64 (real i * fl64 (real (?T - 1) / real (n3 - 1)))\<rfloor>)) [0..<n3]
             = map (\<lambda>i. stream v3 ! i) (map (double_index ?T n3) [0..<n3])"
    by (simp add: double_index_def comp_def)
  show "extract_frames v3 n3
        = Inr (map (\<lambda>i. stream v3 ! (if i = n3 - 1 then ?T - 1
                 else nat \<lfloor>fl64 (real i * fl64 (real (?T - 1) / real (n3 - 1)))\<rfloor>)) [0..<n3])"
    unfolding unf
  proof (cases "frame_count v3 \<le> 0")
    case True
    show "extract_frames v3 n3 = Inr (map (\<lambda>i. stream v3 ! i) (map (double_index ?T n3) [0..<n3]))"
    proof (cases "n3 < ?T")
      case True
      with \<open>frame_count v3 \<le> 0\<close> op ne n1 show ?thesis
        by (simp add: extract_frames_def Let_def linspace_double_index_Suc)
    next
      case False
      then have e: "?T = n3" using T by simp
      have "n3 * n3 \<le> 2 ^ 50" using small e by simp
      moreover have "n3 \<le> n3 * n3" using n by simp
      ultimately have sm: "n3 \<le> 2 ^ 50" by linarith
      have "map (double_index n3 n3) [0..<n3] = map (\<lambda>i. i) [0..<n3]"
        using double_index_id [OF n sm] by (intro map_cong) simp_all
      then have ids: "map (double_index ?T n3) [0..<n3] = [0..<?T]" using e by simp
      have "map (\<lambda>i. stream v3 ! i) [0..<?T] = stream v3" by (rule map_nth)
      then have "map (\<lambda>i. stream v3 ! i) (map (double_index ?T n3) [0..<n3]) = stream v3"
        unfolding ids .
      with \<open>frame_count v3 \<le> 0\<close> op ne e show ?thesis
        by (simp add: extract_frames_def Let_def)
    qed
  next
    case False
    with a have fc: "frame_count v3 = int ?T" by simp
    have nat1: "nat (int ?T - 1) = ?T - 1" by simp
    have rd: "concat (map (\<lambda>idx. case read_at v3 idx of Some frame \<Rightarrow> [frame] | None \<Rightarrow> [])
                          (np_linspace_int (nat (frame_count v3 - 1)) n3))
              = map (\<lambda>i. stream v3 ! i) (map (double_index ?T n3) [0..<n3])"
      unfolding fc nat1 linspace_double_index [OF n1] by (rule concat_map_read_all [OF rng])
    have nonempty: "length (map (\<lambda>i. stream v3 ! i) (map (double_index ?T n3) [0..<n3])) \<noteq> 0"
      using n by simp
    have pos: "\<not> frame_count v3 \<le> 0" using False .
    show "extract_frames v3 n3 = Inr (map (\<lambda>i. stream v3 ! i) (map (double_index ?T n3) [0..<n3]))"
      unfolding extract_frames_def Let_def rd
      using op pos nonempty by simp
  qed
  show "\<forall>i < n3.
            (if i = n3 - 1 then ?T - 1
             else nat \<lfloor>fl64 (real i * fl64 (real (?T - 1) / real (n3 - 1)))\<rfloor>)
              = nat \<lfloor>real i * real (?T - 1) / real (n3 - 1)\<rfloor>
          \<or> (Suc (if i = n3 - 1 then ?T - 1
                   else nat \<lfloor>fl64 (real i * fl64 (real (?T - 1) / real (n3 - 1)))\<rfloor>)
                = nat \<lfloor>real i * real (?T - 1) / real (n3 - 1)\<rfloor>
              \<and> (n3 - 1) dvd i * (?T - 1))"
    using double_index_char_nat [OF n T small] unfolding double_index_def by blast
qed

text \<open>
  The amended C9 on an empty video, on the three-frame video and on the video of 123
  frames with 15 requested, where position 7 reads frame 60 although
  \<open>7 \<sqdot> 122 / 14 = 61\<close>.
\<close>

theorem extract_frames_sampling_witness:
  "extract_frames \<lparr>isOpened = True, frame_count = 0, stream = ([] :: nat list)\<rparr> 10
     = Inl (ValueError No_frames_could_be_extracted_from_video)
   \<and> extract_frames demo_video 10 = Inr [0, 1, 2]
   \<and> extract_frames video123 15
       = Inr [0, 8, 17, 26, 34, 43, 52, 60, 69, 78, 87, 95, 104, 113, 122]"
proof -
  let ?v1 = "\<lparr>isOpened = True, frame_count = 0, stream = ([] :: nat list)\<rparr>"
  have l: "length (stream video123) = 123" by (simp add: video123_def)
  have h1: "stream ?v1 = []" by simp
  have h2: "isOpened demo_video \<and> frame_count demo_video \<le> 0 \<and> stream demo_video \<noteq> []
            \<and> length (stream demo_video) \<le> 10"
    by (simp add: demo_video_def)
  have h3: "isOpened video123
        \<and> (frame_count video123 \<le> 0 \<or> frame_count video123 = int (length (stream video123)))
        \<and> 2 \<le> (15::nat) \<and> 15 \<le> length (stream video123)
        \<and> length (stream video123) * 15 \<le> 2 ^ 50"
    unfolding l by (simp add: video123_def)
  have s: "stream demo_video = [0, 1, 2]" by (simp add: demo_video_def)
  note all = extract_frames_sampling [of ?v1 10 demo_video 10 video123 15]
  from all h1 have a: "extract_frames ?v1 10 = Inl (ValueError No_frames_could_be_extracted_from_video)"
    by simp
  from all h2 have b: "extract_frames demo_video 10 = Inr (stream demo_video)" by blast
  from all h3 have c: "extract_frames video123 15
      = Inr (map (\<lambda>i. stream video123 ! (if i = 15 - 1 then length (stream video123) - 1
                 else nat \<lfloor>fl64 (real i * fl64 (real (length (stream video123) - 1) / real (15 - 1 :: nat)))\<rfloor>))
                 [0..<15])" by blast
  have "map (\<lambda>i. stream video123 ! (if i = 15 - 1 then length (stream video123) - 1
                 else nat \<lfloor>fl64 (real i * fl64 (real (length (stream video123) - 1) / real (15 - 1 :: nat)))\<rfloor>))
                 [0..<15]
        = map (\<lambda>i. stream video123 ! i) (map (double_index 123 15) [0..<15])"
    unfolding l by (simp add: double_index_def comp_def)
  also have "\<dots> = map (\<lambda>i. stream video123 ! i) (np_linspace_int 122 15)"
    using linspace_double_index [of 15 123] by simp
  also have "\<dots> = [0, 8, 17, 26, 34, 43, 52, 60, 69, 78, 87, 95, 104, 113, 122]"
    unfolding linspace_122_15 by (simp add: video123_def)
  finally have m: "map (\<lambda>i. stream video123 ! (if i = 15 - 1 then length (stream video123) - 1
                 else nat \<lfloor>fl64 (real i * fl64 (real (length (stream video123) - 1) / real (15 - 1 :: nat)))\<rfloor>))
                 [0..<15] = [0, 8, 17, 26, 34, 43, 52, 60, 69, 78, 87, 95, 104, 113, 122]" .
  from a b c show ?thesis unfolding m s by simp
qed

text \<open>
  Claim C10. The returned confidence is never negative; with at least two frames the
  detected direction is one of the five directions, the confidence is the rounded maximum
  of five scores that are all non-negative; with fewer frames the direction is
  \<open>unknown\<close> and the confidence 0.
\<close>

theorem direction_verdict_range:
  "(let r = fst (check_challenge_direction cv frames expected t)
    in 0 \<le> confidence r
     \<and> (2 \<le> length frames \<longrightarrow>
          detected_direction r \<in> {''rotation'', ''zoom_in'', ''zoom_out'', ''left'', ''right''}
          \<and> confidence r = py_round (Max (snd ` set (scores (motion_of cv frames)))) 3
          \<and> (\<forall>kv \<in> set (scores (motion_of cv frames)). 0 \<le> snd kv))
     \<and> (length frames < 2 \<longrightarrow> detected_direction r = ''unknown'' \<and> confidence r = 0))"
proof (cases "length frames < 2")
  case True
  then show ?thesis by (simp add: check_challenge_direction_short)
next
  case False
  then have ge: "2 \<le> length frames" by simp
  show ?thesis
    using ge detect_fst_in [of "motion_of cv frames"]
      py_round_nonneg [OF detect_conf_nonneg [of "motion_of cv frames"], of 3]
      scores_nonneg [of _ "motion_of cv frames"]
    by (simp add: check_challenge_direction_long detect_conf_Max [symmetric] Let_def)
qed

text \<open>
  C10 on a moving pair of frames and on a single frame.
\<close>

theorem direction_verdict_range_witness:
  "0 \<le> confidence (fst (check_challenge_direction demo_vision [0, 1 / 4] ''rotation'' (3 / 10)))
   \<and> detected_direction (fst (check_challenge_direction demo_vision [0, 1 / 4] ''rotation'' (3 / 10)))
       \<in> {''rotation'', ''zoom_in'', ''zoom_out'', ''left'', ''right''}
   \<and> detected_direction (fst (check_challenge_direction demo_vision [0] ''rotation'' (3 / 10))) = ''unknown''"
  using direction_verdict_range [of demo_vision "[0, 1 / 4]" "''rotation''" "3 / 10"]
    direction_verdict_range [of demo_vision "[0]" "''rotation''" "3 / 10"]
  by (simp add: Let_def)

end
